theory Spec2Isabelle
  imports Complex_Main "HOL-Library.Word"
begin

section \<open>The live voice session of \<^verbatim>\<open>src/App.tsx\<close>\<close>

text \<open>
  The component keeps three React flags and three refs (lines 110--117) and mutates
  them from \<^verbatim>\<open>stopLiveVoice\<close>, \<^verbatim>\<open>startLiveVoice\<close> and the callbacks
  it hands to the transport. The browser objects those handlers touch (audio contexts,
  buffer sources, the microphone stream, the console) are part of the state as well, and
  every call that leaves the component is appended to \<open>calls\<close> in program order.
  Objects are told apart by a number drawn from the counter \<open>fresh\<close>.

  The visualiser loop (lines 255--268) only writes the two magnitude arrays; it is left
  out, as are the analyser and processor nodes, which no handler reads back. Creating a
  node and wiring it is taken not to throw.
\<close>

type_synonym source = nat
type_synonym audio_context = nat
type_synonym session = nat

datatype exn =
    InvalidStateError
  | InvalidCharacterError
  | EncodingError
  | TypeError
  | NotAllowedError
  | ConnectError
  | CloseError

datatype call =
    NewAudioContext audio_context
  | GetUserMedia
  | ConnectLive
  | SessionClose session
  | ContextClose audio_context
  | SourceStart source
  | SourceStop source
  | SendRealtimeInput string
  | ConsoleLog string
  | ConsoleError exn

record app =
  isLiveActive :: bool
  isLuminaSpeaking :: bool
  isLuminaThinking :: bool
  liveSessionRef :: "session option"
  audioContextRef :: "audio_context option"
  currentAudioSourceRef :: "source option"
  closedContexts :: "audio_context set"
  started :: "source set"
  playing :: "source set"
  micStreams :: nat
  processors :: nat
  handlers :: "session set"
  fresh :: nat
  calls :: "call list"

text \<open>
  \<open>started\<close> holds the buffer sources on which \<^verbatim>\<open>start()\<close> was called,
  \<open>playing\<close> those of them on which neither \<^verbatim>\<open>stop()\<close> was called nor the
  end of the buffer was reached. \<open>micStreams\<close> counts the media streams that
  \<^verbatim>\<open>getUserMedia\<close> has handed out and whose tracks nobody has stopped.
  \<open>processors\<close> counts the script processors wired into the graph so far (lines
  270--272). A processor gets its \<^verbatim>\<open>onaudioprocess\<close> handler only at line 318, and
  that handler closes over the session just opened: \<open>handlers\<close> holds the sessions for
  which a handler is installed.
\<close>

definition initial :: app where
  "initial = \<lparr>isLiveActive = False, isLuminaSpeaking = False, isLuminaThinking = False,
     liveSessionRef = None, audioContextRef = None, currentAudioSourceRef = None,
     closedContexts = {}, started = {}, playing = {}, micStreams = 0, processors = 0,
     handlers = {}, fresh = 0, calls = []\<rparr>"

text \<open>What the overlay shows (lines 617 and 645).\<close>

datatype session_state = Idle | Thinking | Listening | Speaking

definition sessionState :: "app \<Rightarrow> session_state" where
  "sessionState s =
     (if \<not> isLiveActive s then Idle
      else if isLuminaSpeaking s then Speaking
      else if isLuminaThinking s then Thinking
      else Listening)"

subsection \<open>Exceptions\<close>

text \<open>
  A handler either runs to its end or throws; what it wrote before the throw stays
  written, so both outcomes carry the state.
\<close>

datatype result = Returns app | Throws exn app

fun andThen :: "result \<Rightarrow> (app \<Rightarrow> result) \<Rightarrow> result" where
  "andThen (Returns s) f = f s"
| "andThen (Throws e s) f = Throws e s"

fun state_of :: "result \<Rightarrow> app" where
  "state_of (Returns s) = s"
| "state_of (Throws e s) = s"

subsection \<open>The browser and the transport\<close>

text \<open>
  What the surroundings answer is a parameter: whether the microphone is granted, whether
  the transport opens, whether a \<^verbatim>\<open>close()\<close> throws, whether \<^verbatim>\<open>atob\<close>
  accepts a payload and whether \<^verbatim>\<open>decodeAudioData\<close> can decode it.
\<close>

record env =
  micAvailable :: bool
  connectSucceeds :: bool
  sessionCloseThrows :: bool
  contextCloseThrows :: bool
  atobValid :: "string \<Rightarrow> bool"
  decodable :: "string \<Rightarrow> bool"

definition session_close :: "env \<Rightarrow> session \<Rightarrow> app \<Rightarrow> result" where
  "session_close env x s =
     (let s1 = s\<lparr>calls := calls s @ [SessionClose x]\<rparr> in
      if sessionCloseThrows env then Throws CloseError s1 else Returns s1)"

definition context_close :: "env \<Rightarrow> audio_context \<Rightarrow> app \<Rightarrow> result" where
  "context_close env c s =
     (let s1 = s\<lparr>calls := calls s @ [ContextClose c]\<rparr> in
      if contextCloseThrows env then Throws InvalidStateError s1
      else Returns (s1\<lparr>closedContexts := insert c (closedContexts s)\<rparr>))"

text \<open>
  \<^verbatim>\<open>AudioBufferSourceNode.stop()\<close> throws \<^verbatim>\<open>InvalidStateError\<close> on a node that
  was never started. \<^verbatim>\<open>start()\<close> is only ever called on a node just created.
\<close>

definition source_stop :: "source \<Rightarrow> app \<Rightarrow> result" where
  "source_stop h s =
     (let s1 = s\<lparr>calls := calls s @ [SourceStop h]\<rparr> in
      if h \<in> started s then Returns (s1\<lparr>playing := playing s - {h}\<rparr>)
      else Throws InvalidStateError s1)"

definition source_start :: "source \<Rightarrow> app \<Rightarrow> app" where
  "source_start h s =
     s\<lparr>started := insert h (started s), playing := insert h (playing s),
       calls := calls s @ [SourceStart h]\<rparr>"

subsection \<open>\<^verbatim>\<open>stopLiveVoice\<close> (lines 217--233)\<close>

definition stop_session_part :: "env \<Rightarrow> app \<Rightarrow> result" where
  "stop_session_part env s =
     (case liveSessionRef s of
        None \<Rightarrow> Returns s
      | Some x \<Rightarrow>
          andThen (session_close env x s) (\<lambda>s1. Returns (s1\<lparr>liveSessionRef := None\<rparr>)))"

definition stop_context_part :: "env \<Rightarrow> app \<Rightarrow> result" where
  "stop_context_part env s =
     (case audioContextRef s of
        None \<Rightarrow> Returns s
      | Some c \<Rightarrow>
          if c \<in> closedContexts s then Returns s
          else andThen (context_close env c s) (\<lambda>s1. Returns (s1\<lparr>audioContextRef := None\<rparr>)))"

definition stop_source_part :: "app \<Rightarrow> result" where
  "stop_source_part s =
     andThen
       (case currentAudioSourceRef s of
          None \<Rightarrow> Returns s
        | Some h \<Rightarrow>
            andThen (source_stop h s) (\<lambda>s1. Returns (s1\<lparr>currentAudioSourceRef := None\<rparr>)))
       (\<lambda>s2. Returns (s2\<lparr>isLiveActive := False, isLuminaSpeaking := False,
                          isLuminaThinking := False\<rparr>))"

definition stopLiveVoice :: "env \<Rightarrow> app \<Rightarrow> result" where
  "stopLiveVoice env s =
     andThen (stop_session_part env s) (\<lambda>s1.
     andThen (stop_context_part env s1) stop_source_part)"

subsection \<open>The transport callbacks (lines 275--313)\<close>

datatype part = Part (inlineData_data: "string option")

record content =
  parts :: "part list option"

record server_content =
  modelTurn :: "content option"
  interrupted :: bool

record message =
  serverContent :: "server_content option"

definition onopen :: "app \<Rightarrow> app" where
  "onopen s = s\<lparr>isLuminaThinking := False,
                calls := calls s @ [ConsoleLog ''Live session opened'']\<rparr>"

text \<open>
  \<^verbatim>\<open>parts[0]?.inlineData?.data\<close>, with JavaScript's test \<^verbatim>\<open>if (base64Audio)\<close>
  folded in: an empty string counts as no payload.
\<close>

definition base64Audio :: "part list \<Rightarrow> string option" where
  "base64Audio ps =
     (case ps of
        [] \<Rightarrow> None
      | p # _ \<Rightarrow>
          (case inlineData_data p of
             None \<Rightarrow> None
           | Some b \<Rightarrow> if b = [] then None else Some b))"

text \<open>The completion callback installed on a source (lines 297--302).\<close>

definition onended :: "source \<Rightarrow> app \<Rightarrow> app" where
  "onended src s =
     (if currentAudioSourceRef s = Some src
      then s\<lparr>isLuminaSpeaking := False, currentAudioSourceRef := None\<rparr>
      else s)"

text \<open>Lines 287--303: what runs once \<^verbatim>\<open>decodeAudioData\<close> has resolved.\<close>

definition play_chunk :: "app \<Rightarrow> result" where
  "play_chunk s =
     (let src = fresh s; s1 = s\<lparr>fresh := Suc (fresh s)\<rparr> in
      andThen
        (case currentAudioSourceRef s1 of
           None \<Rightarrow> Returns s1
         | Some prev \<Rightarrow> source_stop prev s1)
        (\<lambda>s2. Returns (source_start src (s2\<lparr>currentAudioSourceRef := Some src\<rparr>))))"

text \<open>Lines 306--312.\<close>

definition interrupted_part :: "message \<Rightarrow> app \<Rightarrow> result" where
  "interrupted_part m s =
     (case serverContent m of
        None \<Rightarrow> Returns s
      | Some sc \<Rightarrow>
          if interrupted sc then
            andThen
              (case currentAudioSourceRef s of
                 None \<Rightarrow> Returns s
               | Some h \<Rightarrow>
                   andThen (source_stop h s)
                     (\<lambda>s1. Returns (s1\<lparr>currentAudioSourceRef := None\<rparr>)))
              (\<lambda>s2. Returns (s2\<lparr>isLuminaSpeaking := False\<rparr>))
          else Returns s)"

text \<open>
  Lines 280--286: the handler up to its only \<^verbatim>\<open>await\<close>. It either goes on to the
  \<^verbatim>\<open>interrupted\<close> test at once, or suspends on \<^verbatim>\<open>decodeAudioData\<close> holding the
  payload, or throws (\<^verbatim>\<open>parts\<close> missing, or \<^verbatim>\<open>atob\<close> rejecting the payload).
\<close>

datatype head = Proceed app | AwaitDecode string app | HeadThrows exn app

definition onmessage_head :: "env \<Rightarrow> message \<Rightarrow> app \<Rightarrow> head" where
  "onmessage_head env m s =
     (case serverContent m of
        None \<Rightarrow> Proceed s
      | Some sc \<Rightarrow>
          (case modelTurn sc of
             None \<Rightarrow> Proceed s
           | Some turn \<Rightarrow>
               (let s1 = s\<lparr>isLuminaSpeaking := True, isLuminaThinking := False\<rparr> in
                case parts turn of
                  None \<Rightarrow> HeadThrows TypeError s1
                | Some ps \<Rightarrow>
                    (case base64Audio ps of
                       None \<Rightarrow> Proceed s1
                     | Some b \<Rightarrow>
                         if atobValid env b then AwaitDecode b s1
                         else HeadThrows InvalidCharacterError s1))))"

definition onmessage_resume :: "env \<Rightarrow> string \<Rightarrow> message \<Rightarrow> app \<Rightarrow> result" where
  "onmessage_resume env b m s =
     (if decodable env b then andThen (play_chunk s) (interrupted_part m)
      else Throws EncodingError s)"

text \<open>The whole handler, when nothing else runs while it waits for the decoder.\<close>

definition onmessage :: "env \<Rightarrow> message \<Rightarrow> app \<Rightarrow> result" where
  "onmessage env m s =
     (case onmessage_head env m s of
        Proceed s1 \<Rightarrow> interrupted_part m s1
      | AwaitDecode b s1 \<Rightarrow> onmessage_resume env b m s1
      | HeadThrows e s1 \<Rightarrow> Throws e s1)"

subsection \<open>\<^verbatim>\<open>startLiveVoice\<close> (lines 235--334)\<close>

text \<open>
  The function suspends twice, on \<^verbatim>\<open>getUserMedia\<close> and on \<^verbatim>\<open>connectLive\<close>.
  \<open>start_head\<close> is what runs before the first suspension, \<open>start_mic_settled\<close>
  what runs when the microphone request settles and \<open>start_connect_settled\<close> what runs
  when the transport settles. The \<^verbatim>\<open>catch\<close> block logs the error
  (\<open>start_caught\<close>) and calls \<^verbatim>\<open>stopLiveVoice\<close> without awaiting it; the state
  \<open>start_catch\<close> leaves is the one that teardown ends in, whether or not teardown
  itself throws.
\<close>

definition start_head :: "app \<Rightarrow> app" where
  "start_head s =
     s\<lparr>isLiveActive := True, isLuminaThinking := True,
       audioContextRef := Some (fresh s), fresh := Suc (fresh s),
       calls := calls s @ [NewAudioContext (fresh s), GetUserMedia]\<rparr>"

definition start_caught :: "exn \<Rightarrow> app \<Rightarrow> app" where
  "start_caught e s = s\<lparr>calls := calls s @ [ConsoleError e]\<rparr>"

definition start_catch :: "env \<Rightarrow> exn \<Rightarrow> app \<Rightarrow> app" where
  "start_catch env e s = state_of (stopLiveVoice env (start_caught e s))"

definition start_mic_settled :: "env \<Rightarrow> app \<Rightarrow> app" where
  "start_mic_settled env s =
     (if micAvailable env
      then s\<lparr>micStreams := Suc (micStreams s), processors := Suc (processors s),
             calls := calls s @ [ConnectLive]\<rparr>
      else start_catch env NotAllowedError s)"

definition start_connect_settled :: "env \<Rightarrow> app \<Rightarrow> app" where
  "start_connect_settled env s =
     (if connectSucceeds env
      then s\<lparr>liveSessionRef := Some (fresh s), handlers := insert (fresh s) (handlers s),
             fresh := Suc (fresh s)\<rparr>
      else start_catch env ConnectError s)"

definition startLiveVoice :: "env \<Rightarrow> app \<Rightarrow> app" where
  "startLiveVoice env s =
     (let s1 = start_mic_settled env (start_head s) in
      if micAvailable env then start_connect_settled env s1 else s1)"

subsection \<open>The frame encoder (lines 318--328)\<close>

text \<open>
  A sample of the capture buffer is a 32-bit float: a number, an infinity or NaN. The
  numbers are rationals, and for a float of magnitude at most 1 the product with
  \<^verbatim>\<open>0x7FFF\<close> needs at most 39 significant bits, so the double-precision
  multiplication of the source is exact and the rational product is what it computes.
  Storing into the \<^verbatim>\<open>Int16Array\<close> truncates towards zero and wraps modulo \<open>2^16\<close>;
  NaN and the infinities are stored as 0.
\<close>

datatype f32 = NaN | PosInf | NegInf | Num rat

definition math_min_1 :: "f32 \<Rightarrow> f32" where
  "math_min_1 x =
     (case x of NaN \<Rightarrow> NaN | PosInf \<Rightarrow> Num 1 | NegInf \<Rightarrow> NegInf | Num r \<Rightarrow> Num (min 1 r))"

definition math_max_neg1 :: "f32 \<Rightarrow> f32" where
  "math_max_neg1 x =
     (case x of NaN \<Rightarrow> NaN | PosInf \<Rightarrow> PosInf | NegInf \<Rightarrow> Num (- 1) | Num r \<Rightarrow> Num (max (- 1) r))"

definition times_7FFF :: "f32 \<Rightarrow> f32" where
  "times_7FFF x =
     (case x of NaN \<Rightarrow> NaN | PosInf \<Rightarrow> PosInf | NegInf \<Rightarrow> NegInf | Num r \<Rightarrow> Num (r * 32767))"

definition trunc :: "rat \<Rightarrow> int" where
  "trunc r = (if r < 0 then \<lceil>r\<rceil> else \<lfloor>r\<rfloor>)"

definition toInt16 :: "f32 \<Rightarrow> 16 word" where
  "toInt16 x = (case x of Num r \<Rightarrow> word_of_int (trunc r) | _ \<Rightarrow> 0)"

definition pcm_sample :: "f32 \<Rightarrow> 16 word" where
  "pcm_sample x = toInt16 (times_7FFF (math_max_neg1 (math_min_1 x)))"

definition pcmData :: "f32 list \<Rightarrow> 16 word list" where
  "pcmData inputData = map pcm_sample inputData"

text \<open>\<^verbatim>\<open>new Uint8Array(pcmData.buffer)\<close>: two bytes a sample, low byte first.\<close>

definition buffer_bytes :: "16 word list \<Rightarrow> 8 word list" where
  "buffer_bytes ws = concat (map (\<lambda>w. [ucast w, ucast (drop_bit 8 w)]) ws)"

text \<open>
  \<^verbatim>\<open>btoa(String.fromCharCode(...bytes))\<close>: the string has one code unit below 256
  for each byte, which \<^verbatim>\<open>btoa\<close> accepts, and \<^verbatim>\<open>btoa\<close> writes the base64 of
  RFC 4648 with padding. The send is recorded as a call; it is taken not to throw.
\<close>

definition b64chars :: string where
  "b64chars = ''ABCDEFGHIJKLMNOPQRSTUVWXYZabcdefghijklmnopqrstuvwxyz0123456789+/''"

definition b64 :: "nat \<Rightarrow> char" where
  "b64 n = b64chars ! n"

fun btoa :: "8 word list \<Rightarrow> string" where
  "btoa (a # b # c # rest) =
     (let n = unat a * 65536 + unat b * 256 + unat c in
      b64 (n div 262144) # b64 (n div 4096 mod 64) # b64 (n div 64 mod 64) # b64 (n mod 64)
        # btoa rest)"
| "btoa [a, b] =
     (let n = unat a * 65536 + unat b * 256 in
      [b64 (n div 262144), b64 (n div 4096 mod 64), b64 (n div 64 mod 64), CHR ''=''])"
| "btoa [a] =
     (let n = unat a * 65536 in
      [b64 (n div 262144), b64 (n div 4096 mod 64), CHR ''='', CHR ''=''])"
| "btoa [] = []"

definition encode_frame :: "f32 list \<Rightarrow> string" where
  "encode_frame inputData = btoa (buffer_bytes (pcmData inputData))"

definition onaudioprocess :: "f32 list \<Rightarrow> app \<Rightarrow> app" where
  "onaudioprocess inputData s =
     s\<lparr>calls := calls s @ [SendRealtimeInput (encode_frame inputData)]\<rparr>"

text \<open>The buffer size handed to \<^verbatim>\<open>createScriptProcessor\<close> (line 270).\<close>

definition bufferSize :: nat where
  "bufferSize = 4096"

subsection \<open>The event loop\<close>

text \<open>
  Handlers run one at a time, each to its next suspension. An event is one such run; the
  data a continuation closes over travels with its event. Any list of events is a run:
  the lists the browser can really produce are among them. A handler that throws leaves
  the state it had reached.

  \<^item> \<open>StartClicked\<close>, \<open>MicSettled\<close> and \<open>ConnectSettled\<close> are the three segments of
    \<^verbatim>\<open>startLiveVoice\<close>. When a request fails the segment is the \<^verbatim>\<open>catch\<close> block
    up to its call of \<^verbatim>\<open>stopLiveVoice\<close>; the teardown it starts is made of the stop
    events below.
  \<^item> \<open>Arrives\<close> is \<^verbatim>\<open>onmessage\<close> up to its \<^verbatim>\<open>await\<close> (or to its end, when it
    does not suspend), \<open>Decoded\<close> its continuation.
  \<^item> \<open>BufferEnds\<close> is the audio thread reaching the end of a source's buffer,
    \<open>Ended\<close> the later dispatch of that source's \<^verbatim>\<open>onended\<close> callback, which the
    browser also dispatches after a \<^verbatim>\<open>stop()\<close> and never for a source that is still
    playing.
  \<^item> \<^verbatim>\<open>stopLiveVoice\<close> suspends after each \<^verbatim>\<open>close()\<close> and clears the ref only
    when it resumes. \<open>StopCloseSession\<close> and \<open>StopCloseContext\<close> are the guarded
    calls (lines 218--219 and 222--223), \<open>StopSessionClosed\<close> and \<open>StopContextClosed\<close>
    the resumptions (lines 220 and 224), \<open>StopSource\<close> the rest (lines 226--232). A
    segment of the function is one or more of these in a row. The audio context reports
    \<^verbatim>\<open>closed\<close> once its \<^verbatim>\<open>close()\<close> promise has resolved; that promise belongs
    to the context \<^verbatim>\<open>close()\<close> was called on, which travels with the event.
  \<^item> \<open>Tick c x\<close> is an \<^verbatim>\<open>audioprocess\<close> event of the script processor on the audio
    context \<open>c\<close>; \<open>x\<close> is the session its handler closes over. A closed context
    renders no audio, and before line 318 has run the processor has no handler: then
    the tick does nothing.
\<close>

datatype event =
    StartClicked
  | MicSettled
  | ConnectSettled
  | Opened
  | Arrives message
  | Decoded string message
  | BufferEnds source
  | Ended source
  | StopCloseSession
  | StopSessionClosed
  | StopCloseContext
  | StopContextClosed audio_context
  | StopSource
  | Tick audio_context session "f32 list"

fun fire :: "env \<Rightarrow> event \<Rightarrow> app \<Rightarrow> app" where
  "fire env StartClicked s = start_head s"
| "fire env MicSettled s =
     (if micAvailable env then start_mic_settled env s else start_caught NotAllowedError s)"
| "fire env ConnectSettled s =
     (if connectSucceeds env then start_connect_settled env s else start_caught ConnectError s)"
| "fire env Opened s = onopen s"
| "fire env (Arrives m) s =
     (case onmessage_head env m s of
        Proceed s1 \<Rightarrow> state_of (interrupted_part m s1)
      | AwaitDecode b s1 \<Rightarrow> s1
      | HeadThrows e s1 \<Rightarrow> s1)"
| "fire env (Decoded b m) s = state_of (onmessage_resume env b m s)"
| "fire env (BufferEnds h) s = s\<lparr>playing := playing s - {h}\<rparr>"
| "fire env (Ended h) s = (if h \<in> playing s then s else onended h s)"
| "fire env StopCloseSession s =
     (case liveSessionRef s of None \<Rightarrow> s | Some x \<Rightarrow> state_of (session_close env x s))"
| "fire env StopSessionClosed s = s\<lparr>liveSessionRef := None\<rparr>"
| "fire env StopCloseContext s =
     (case audioContextRef s of
        None \<Rightarrow> s
      | Some c \<Rightarrow>
          if c \<in> closedContexts s then s else s\<lparr>calls := calls s @ [ContextClose c]\<rparr>)"
| "fire env (StopContextClosed c) s =
     s\<lparr>closedContexts := insert c (closedContexts s), audioContextRef := None\<rparr>"
| "fire env StopSource s = state_of (stop_source_part s)"
| "fire env (Tick c x inputData) s =
     (if c \<notin> closedContexts s \<and> x \<in> handlers s then onaudioprocess inputData s else s)"

fun run :: "(env \<times> event) list \<Rightarrow> app \<Rightarrow> app" where
  "run [] s = s"
| "run ((env, e) # es) s = run es (fire env e s)"

subsection \<open>The invariant of the source reference\<close>

text \<open>
  Every handler keeps three facts: a source that plays is the one the ref holds, the
  source the ref holds was started, and every started source was drawn from the counter
  before.
\<close>

definition sources_ok :: "app \<Rightarrow> bool" where
  "sources_ok s \<longleftrightarrow>
     playing s \<subseteq> set_option (currentAudioSourceRef s) \<and>
     set_option (currentAudioSourceRef s) \<subseteq> started s \<and>
     started s \<subseteq> {..<fresh s}"

subsection \<open>Concrete surroundings and messages\<close>

text \<open>A browser and transport in which every request succeeds and nothing throws.\<close>

definition env_ok :: env where
  "env_ok = \<lparr>micAvailable = True, connectSucceeds = True, sessionCloseThrows = False,
     contextCloseThrows = False, atobValid = (\<lambda>b. True), decodable = (\<lambda>b. True)\<rparr>"

text \<open>A server message whose model turn carries one audio payload.\<close>

definition chunk :: "string \<Rightarrow> message" where
  "chunk b = \<lparr>serverContent = Some \<lparr>modelTurn = Some \<lparr>parts = Some [Part (Some b)]\<rparr>,
     interrupted = False\<rparr>\<rparr>"

text \<open>Two chunks, each decoded in turn.\<close>

definition two_chunks :: "(env \<times> event) list" where
  "two_chunks =
     [(env_ok, Arrives (chunk ''QUJD'')), (env_ok, Decoded ''QUJD'' (chunk ''QUJD'')),
      (env_ok, Arrives (chunk ''REVG'')), (env_ok, Decoded ''REVG'' (chunk ''REVG''))]"

definition env_atob_rejects :: env where
  "env_atob_rejects = env_ok\<lparr>atobValid := (\<lambda>b. False)\<rparr>"

definition env_undecodable :: env where
  "env_undecodable = env_ok\<lparr>decodable := (\<lambda>b. False)\<rparr>"

definition turn_without_audio :: message where
  "turn_without_audio =
     \<lparr>serverContent = Some \<lparr>modelTurn = Some \<lparr>parts = Some [Part None]\<rparr>, interrupted = False\<rparr>\<rparr>"

definition interrupted_only :: message where
  "interrupted_only = \<lparr>serverContent = Some \<lparr>modelTurn = None, interrupted = True\<rparr>\<rparr>"

definition interrupted_chunk :: "string \<Rightarrow> message" where
  "interrupted_chunk b =
     \<lparr>serverContent = Some \<lparr>modelTurn = Some \<lparr>parts = Some [Part (Some b)]\<rparr>,
        interrupted = True\<rparr>\<rparr>"

definition one_chunk :: "(env \<times> event) list" where
  "one_chunk = [(env_ok, Arrives (chunk ''QUJD'')), (env_ok, Decoded ''QUJD'' (chunk ''QUJD''))]"

definition session_opened :: "(env \<times> event) list" where
  "session_opened =
     [(env_ok, StartClicked), (env_ok, MicSettled), (env_ok, ConnectSettled), (env_ok, Opened)]"

text \<open>
  What a server content carries besides its flags, as lines 280--284 tell it apart: no
  model turn; a model turn without a \<^verbatim>\<open>parts\<close> array; parts whose first part has
  no audio payload; or an audio payload.
\<close>

datatype carried = NoTurn | TurnWithoutParts | TurnWithoutAudio | TurnWithAudio string

definition carries :: "server_content \<Rightarrow> carried" where
  "carries sc =
     (case modelTurn sc of
        None \<Rightarrow> NoTurn
      | Some turn \<Rightarrow>
          (case parts turn of
             None \<Rightarrow> TurnWithoutParts
           | Some ps \<Rightarrow>
               (case base64Audio ps of None \<Rightarrow> TurnWithoutAudio | Some b \<Rightarrow> TurnWithAudio b)))"

text \<open>A message with the \<^verbatim>\<open>interrupted\<close> flag whose model turn has no parts.\<close>

definition interrupted_turn_without_parts :: message where
  "interrupted_turn_without_parts =
     \<lparr>serverContent = Some \<lparr>modelTurn = Some \<lparr>parts = None\<rparr>, interrupted = True\<rparr>\<rparr>"

definition env_session_close_throws :: env where
  "env_session_close_throws = env_ok\<lparr>sessionCloseThrows := True\<rparr>"

definition env_no_microphone :: env where
  "env_no_microphone = env_ok\<lparr>micAvailable := False\<rparr>"

definition session_playing :: "(env \<times> event) list" where
  "session_playing = session_opened @ one_chunk"

text \<open>A start whose microphone was granted and whose transport has not settled yet.\<close>

definition connect_pending :: "(env \<times> event) list" where
  "connect_pending = [(env_ok, StartClicked), (env_ok, MicSettled)]"

subsection \<open>The calls of teardown\<close>

text \<open>The calls each part of teardown makes, read off the three refs.\<close>

definition session_calls :: "app \<Rightarrow> call list" where
  "session_calls s = (case liveSessionRef s of None \<Rightarrow> [] | Some x \<Rightarrow> [SessionClose x])"

definition context_calls :: "app \<Rightarrow> call list" where
  "context_calls s =
     (case audioContextRef s of
        None \<Rightarrow> []
      | Some c \<Rightarrow> if c \<in> closedContexts s then [] else [ContextClose c])"

definition source_calls :: "app \<Rightarrow> call list" where
  "source_calls s = (case currentAudioSourceRef s of None \<Rightarrow> [] | Some h \<Rightarrow> [SourceStop h])"

text \<open>The calls teardown can make.\<close>

definition is_teardown_call :: "call \<Rightarrow> bool" where
  "is_teardown_call c =
     (case c of SessionClose x \<Rightarrow> True | ContextClose x \<Rightarrow> True | SourceStop h \<Rightarrow> True
      | _ \<Rightarrow> False)"

subsection \<open>Reading a frame back\<close>

text \<open>
  The receiving side, to say what the encoded string holds: the position of a character
  in the alphabet, the base64 decoder of RFC 4648 and the little-endian reading of byte
  pairs. None of it is code of the component.
\<close>

fun b64_index :: "char \<Rightarrow> string \<Rightarrow> nat" where
  "b64_index c [] = 0"
| "b64_index c (x # xs) = (if c = x then 0 else Suc (b64_index c xs))"

definition unb64 :: "char \<Rightarrow> nat" where
  "unb64 c = b64_index c b64chars"

fun unbase64 :: "string \<Rightarrow> 8 word list" where
  "unbase64 (a # b # c # d # rest) =
     (if c = CHR ''='' then
        [of_nat ((unb64 a * 262144 + unb64 b * 4096) div 65536)]
      else if d = CHR ''='' then
        (let n = unb64 a * 262144 + unb64 b * 4096 + unb64 c * 64 in
         [of_nat (n div 65536), of_nat (n div 256 mod 256)])
      else
        (let n = unb64 a * 262144 + unb64 b * 4096 + unb64 c * 64 + unb64 d in
         of_nat (n div 65536) # of_nat (n div 256 mod 256) # of_nat (n mod 256) # unbase64 rest))"
| "unbase64 _ = []"

fun samples_of_bytes :: "8 word list \<Rightarrow> 16 word list" where
  "samples_of_bytes (lo # hi # rest) = word_cat hi lo # samples_of_bytes rest"
| "samples_of_bytes _ = []"

section \<open>The source reference and the sources that play\<close>

lemma sources_ok_initial: "sources_ok initial"
  by (simp add: sources_ok_def initial_def)

lemma andThen_state:
  assumes "P (state_of r)" and "\<And>s. r = Returns s \<Longrightarrow> P (state_of (f s))"
  shows "P (state_of (andThen r f))"
  using assms by (cases r) simp_all

lemma ok_stop_source_part: "sources_ok s \<Longrightarrow> sources_ok (state_of (stop_source_part s))"
  by (auto simp: sources_ok_def stop_source_part_def source_stop_def Let_def split: option.splits)

lemma ok_stop_session_part: "sources_ok s \<Longrightarrow> sources_ok (state_of (stop_session_part env s))"
  by (auto simp: sources_ok_def stop_session_part_def session_close_def Let_def split: option.splits)

lemma ok_stop_context_part: "sources_ok s \<Longrightarrow> sources_ok (state_of (stop_context_part env s))"
  by (auto simp: sources_ok_def stop_context_part_def context_close_def Let_def split: option.splits)

lemma ok_stopLiveVoice:
  assumes "sources_ok s"
  shows "sources_ok (state_of (stopLiveVoice env s))"
  unfolding stopLiveVoice_def
proof (rule andThen_state)
  show "sources_ok (state_of (stop_session_part env s))"
    using assms by (rule ok_stop_session_part)
next
  fix s1
  assume "stop_session_part env s = Returns s1"
  then have s1: "sources_ok s1"
    using ok_stop_session_part [OF assms, of env] by simp
  show "sources_ok (state_of (andThen (stop_context_part env s1) stop_source_part))"
  proof (rule andThen_state)
    show "sources_ok (state_of (stop_context_part env s1))"
      using s1 by (rule ok_stop_context_part)
  next
    fix s2
    assume "stop_context_part env s1 = Returns s2"
    then have "sources_ok s2"
      using ok_stop_context_part [OF s1, of env] by simp
    then show "sources_ok (state_of (stop_source_part s2))"
      by (rule ok_stop_source_part)
  qed
qed

lemma ok_start_caught: "sources_ok s \<Longrightarrow> sources_ok (start_caught e s)"
  by (simp add: sources_ok_def start_caught_def)

lemma ok_start_catch: "sources_ok s \<Longrightarrow> sources_ok (start_catch env e s)"
  unfolding start_catch_def
  by (rule ok_stopLiveVoice) (rule ok_start_caught)

lemma ok_start_head: "sources_ok s \<Longrightarrow> sources_ok (start_head s)"
  by (auto simp: sources_ok_def start_head_def)

lemma ok_start_mic_settled: "sources_ok s \<Longrightarrow> sources_ok (start_mic_settled env s)"
  by (simp add: start_mic_settled_def ok_start_catch) (simp add: sources_ok_def)

lemma ok_start_connect_settled: "sources_ok s \<Longrightarrow> sources_ok (start_connect_settled env s)"
  by (simp add: start_connect_settled_def ok_start_catch) (auto simp add: sources_ok_def)

lemma ok_interrupted_part: "sources_ok s \<Longrightarrow> sources_ok (state_of (interrupted_part m s))"
  by (auto simp: sources_ok_def interrupted_part_def source_stop_def Let_def split: option.splits)

lemma ok_play_chunk: "sources_ok s \<Longrightarrow> sources_ok (state_of (play_chunk s))"
  by (auto simp: sources_ok_def play_chunk_def source_stop_def source_start_def Let_def
      split: option.splits)

lemma play_chunk_Returns: "sources_ok s \<Longrightarrow> \<exists>s'. play_chunk s = Returns s'"
  by (auto simp: sources_ok_def play_chunk_def source_stop_def source_start_def Let_def
      split: option.splits)

lemma ok_onmessage_resume: "sources_ok s \<Longrightarrow> sources_ok (state_of (onmessage_resume env b m s))"
proof -
  assume ok: "sources_ok s"
  show ?thesis
  proof (cases "decodable env b")
    case False
    then show ?thesis using ok by (simp add: onmessage_resume_def)
  next
    case True
    have "sources_ok (state_of (andThen (play_chunk s) (interrupted_part m)))"
    proof (cases "play_chunk s")
      case (Returns s1)
      then have "sources_ok s1" using ok_play_chunk [OF ok] by simp
      then show ?thesis using Returns by (simp add: ok_interrupted_part)
    next
      case (Throws e s1)
      then show ?thesis using ok_play_chunk [OF ok] by simp
    qed
    then show ?thesis using True by (simp add: onmessage_resume_def)
  qed
qed

lemma ok_flags:
  "sources_ok s \<Longrightarrow> sources_ok (s\<lparr>isLuminaSpeaking := a, isLuminaThinking := b\<rparr>)"
  by (simp add: sources_ok_def)

lemma ok_head:
  "sources_ok s \<Longrightarrow> sources_ok (case onmessage_head env m s of
        Proceed s1 \<Rightarrow> state_of (interrupted_part m s1)
      | AwaitDecode b s1 \<Rightarrow> s1
      | HeadThrows e s1 \<Rightarrow> s1)"
  by (simp add: onmessage_head_def Let_def ok_interrupted_part ok_flags split: option.splits)

lemma ok_fire: "sources_ok s \<Longrightarrow> sources_ok (fire env e s)"
proof (cases e)
  case (Arrives m)
  assume "sources_ok s" then show ?thesis using ok_head Arrives by simp
next
  case (BufferEnds h)
  assume "sources_ok s" then show ?thesis using BufferEnds by (auto simp: sources_ok_def)
next
  case (Ended h)
  assume "sources_ok s" then show ?thesis using Ended by (auto simp: sources_ok_def onended_def)
next
  case (Tick c x xs)
  assume "sources_ok s" then show ?thesis using Tick by (auto simp: sources_ok_def onaudioprocess_def)
next
  case Opened
  assume "sources_ok s" then show ?thesis using Opened by (auto simp: sources_ok_def onopen_def)
next
  case StopCloseSession
  assume "sources_ok s" then show ?thesis using StopCloseSession
    by (auto simp: sources_ok_def session_close_def Let_def split: option.splits)
next
  case StopSessionClosed
  assume "sources_ok s" then show ?thesis using StopSessionClosed by (simp add: sources_ok_def)
next
  case StopCloseContext
  assume "sources_ok s" then show ?thesis using StopCloseContext
    by (auto simp: sources_ok_def split: option.splits)
next
  case (StopContextClosed c)
  assume "sources_ok s" then show ?thesis using StopContextClosed by (simp add: sources_ok_def)
qed (simp_all add: ok_start_head ok_start_mic_settled ok_start_connect_settled ok_start_caught
      ok_onmessage_resume ok_stop_source_part)

text \<open>
  Fired in a row, the stop events are \<^verbatim>\<open>stopLiveVoice\<close> run to its end: here for a
  state that holds a transport and an open audio context, with no \<^verbatim>\<open>close()\<close>
  throwing.
\<close>

lemma stop_events_in_a_row:
  assumes "liveSessionRef s = Some x" and "audioContextRef s = Some c"
    and "c \<notin> closedContexts s"
    and "\<not> sessionCloseThrows env" and "\<not> contextCloseThrows env"
  shows "run [(env, StopCloseSession), (env, StopSessionClosed), (env, StopCloseContext),
              (env, StopContextClosed c), (env, StopSource)] s
         = state_of (stopLiveVoice env s)"
  using assms
  by (cases "currentAudioSourceRef s")
    (simp_all add: stopLiveVoice_def stop_session_part_def stop_context_part_def
      stop_source_part_def session_close_def context_close_def source_stop_def Let_def)

lemma ok_run: "sources_ok s \<Longrightarrow> sources_ok (run es s)"
  by (induction es arbitrary: s) (auto simp: ok_fire)

lemma playing_is_current:
  assumes "sources_ok s" and "p \<in> playing s"
  shows "currentAudioSourceRef s = Some p" and "p \<in> started s" and "playing s = {p}"
    and "p < fresh s"
  using assms by (cases "currentAudioSourceRef s"; auto simp: sources_ok_def)+

lemmas handler_defs = env_ok_def chunk_def initial_def onmessage_head_def onmessage_resume_def
  play_chunk_def interrupted_part_def source_stop_def source_start_def base64Audio_def Let_def
  start_head_def start_mic_settled_def start_connect_settled_def onopen_def onended_def

text \<open>
  Claim C1. After any run of events from the initial state, at most one source is started
  and not stopped; and if a source still plays when the next chunk has been decoded, the
  handler stops that source first and starts the new one second, after which the new one
  is the only source playing and the one the ref holds.
\<close>

theorem playing_at_most_one:
  assumes "s = run es initial"
  shows "(\<forall>a b. a \<in> playing s \<and> b \<in> playing s \<longrightarrow> a = b) \<and>
         (\<forall>p. p \<in> playing s \<longrightarrow>
            (case play_chunk s of
               Returns s' \<Rightarrow>
                 calls s' = calls s @ [SourceStop p, SourceStart (fresh s)] \<and>
                 playing s' = {fresh s} \<and> currentAudioSourceRef s' = Some (fresh s)
             | Throws e s' \<Rightarrow> False))"
proof -
  have ok: "sources_ok s"
    using assms sources_ok_initial ok_run by simp
  have one: "\<forall>a b. a \<in> playing s \<and> b \<in> playing s \<longrightarrow> a = b"
    using playing_is_current(3) [OF ok] by blast
  have two: "\<forall>p. p \<in> playing s \<longrightarrow>
            (case play_chunk s of
               Returns s' \<Rightarrow>
                 calls s' = calls s @ [SourceStop p, SourceStart (fresh s)] \<and>
                 playing s' = {fresh s} \<and> currentAudioSourceRef s' = Some (fresh s)
             | Throws e s' \<Rightarrow> False)"
  proof (intro allI impI)
    fix p assume p: "p \<in> playing s"
    then have cur: "currentAudioSourceRef s = Some p" and st: "p \<in> started s"
      and pl: "playing s = {p}"
      using playing_is_current [OF ok p] by simp_all
    show "case play_chunk s of
               Returns s' \<Rightarrow>
                 calls s' = calls s @ [SourceStop p, SourceStart (fresh s)] \<and>
                 playing s' = {fresh s} \<and> currentAudioSourceRef s' = Some (fresh s)
             | Throws e s' \<Rightarrow> False"
      using cur st pl by (simp add: play_chunk_def source_stop_def source_start_def Let_def)
  qed
  from one two show ?thesis by blast
qed

theorem playing_at_most_one_witness:
  "playing (run two_chunks initial) = {1} \<and>
   (case play_chunk (run two_chunks initial) of
      Returns s' \<Rightarrow>
        calls s' = [SourceStart 0, SourceStop 0, SourceStart 1, SourceStop 1, SourceStart 2] \<and>
        playing s' = {2} \<and> currentAudioSourceRef s' = Some 2
    | Throws e s' \<Rightarrow> False)"
proof -
  have p: "playing (run two_chunks initial) = {1}"
    and f: "fresh (run two_chunks initial) = 2"
    and c: "calls (run two_chunks initial) = [SourceStart 0, SourceStop 0, SourceStart 1]"
    by (simp_all add: two_chunks_def handler_defs)
  from playing_at_most_one [OF refl, of two_chunks] p f c
  show ?thesis by (auto split: result.splits)
qed

subsection \<open>The completion callback\<close>

lemmas input_defs = env_atob_rejects_def env_undecodable_def turn_without_audio_def
  interrupted_only_def interrupted_chunk_def one_chunk_def session_opened_def two_chunks_def

lemma reachable_ok: "sources_ok (run es initial)"
  by (simp add: sources_ok_initial ok_run)

text \<open>
  Claim C9. The completion callback of a source changes nothing unless the ref still
  holds that source, in which case it clears the ref and the Speaking flag. In
  particular, once the next chunk has superseded the source the ref held, the old
  source's callback leaves the new source in the ref.
\<close>

theorem onended_clears_only_current:
  "(currentAudioSourceRef t \<noteq> Some h \<longrightarrow> onended h t = t) \<and>
   (currentAudioSourceRef t = Some h \<longrightarrow>
      onended h t = t\<lparr>isLuminaSpeaking := False, currentAudioSourceRef := None\<rparr>) \<and>
   (s = run es initial \<and> currentAudioSourceRef s = Some old \<longrightarrow>
      (case play_chunk s of
         Returns s' \<Rightarrow> currentAudioSourceRef s' = Some (fresh s) \<and> onended old s' = s'
       | Throws e s' \<Rightarrow> False))"
proof -
  have a: "currentAudioSourceRef t \<noteq> Some h \<longrightarrow> onended h t = t"
    by (simp add: onended_def)
  have b: "currentAudioSourceRef t = Some h \<longrightarrow>
      onended h t = t\<lparr>isLuminaSpeaking := False, currentAudioSourceRef := None\<rparr>"
    by (simp add: onended_def)
  have c: "s = run es initial \<and> currentAudioSourceRef s = Some old \<longrightarrow>
      (case play_chunk s of
         Returns s' \<Rightarrow> currentAudioSourceRef s' = Some (fresh s) \<and> onended old s' = s'
       | Throws e s' \<Rightarrow> False)"
  proof
    assume h: "s = run es initial \<and> currentAudioSourceRef s = Some old"
    then have eq: "s = run es initial" and cur: "currentAudioSourceRef s = Some old"
      by blast+
    have ok: "sources_ok s"
      unfolding eq by (rule reachable_ok)
    with cur have st: "old \<in> started s" and lt: "old < fresh s"
      by (auto simp: sources_ok_def)
    show "case play_chunk s of
         Returns s' \<Rightarrow> currentAudioSourceRef s' = Some (fresh s) \<and> onended old s' = s'
       | Throws e s' \<Rightarrow> False"
      using cur st lt
      by (simp add: play_chunk_def source_stop_def source_start_def onended_def Let_def)
  qed
  from a b c show ?thesis by blast
qed

theorem onended_clears_only_current_witness:
  "onended 0 (run two_chunks initial) = run two_chunks initial \<and>
   currentAudioSourceRef (run two_chunks initial) = Some 1 \<and>
   currentAudioSourceRef (onended 1 (run two_chunks initial)) = None \<and>
   \<not> isLuminaSpeaking (onended 1 (run two_chunks initial)) \<and>
   (case play_chunk (run one_chunk initial) of
      Returns s' \<Rightarrow> currentAudioSourceRef s' = Some 1 \<and> onended 0 s' = s'
    | Throws e s' \<Rightarrow> False)"
proof -
  have c2: "currentAudioSourceRef (run two_chunks initial) = Some 1"
    and c1: "currentAudioSourceRef (run one_chunk initial) = Some 0"
    and f1: "fresh (run one_chunk initial) = 1"
    by (simp_all add: input_defs handler_defs)
  from onended_clears_only_current [of "run two_chunks initial" 0 "run one_chunk initial" one_chunk 0]
    onended_clears_only_current [of "run two_chunks initial" 1 "run one_chunk initial" one_chunk 0]
    c1 c2 f1
  show ?thesis by (auto split: result.splits)
qed

subsection \<open>Messages without audio, and payloads that fail\<close>

text \<open>
  Claim C10. A message with a model turn whose first part carries no audio payload sets
  the Speaking flag and clears the Thinking flag without suspending; with no
  \<^verbatim>\<open>interrupted\<close> flag in the same message that is all the handler does: no
  source is created, no call is made, and a live session shows Speaking whether or not
  anything plays.
\<close>

theorem turn_without_audio_sets_speaking:
  assumes "serverContent m = Some sc" and "modelTurn sc = Some turn"
    and "parts turn = Some ps" and "base64Audio ps = None"
  shows "onmessage_head env m s = Proceed (s\<lparr>isLuminaSpeaking := True, isLuminaThinking := False\<rparr>) \<and>
         (\<not> interrupted sc \<longrightarrow>
            onmessage env m s = Returns (s\<lparr>isLuminaSpeaking := True, isLuminaThinking := False\<rparr>) \<and>
            sessionState (state_of (onmessage env m s)) = (if isLiveActive s then Speaking else Idle) \<and>
            playing (state_of (onmessage env m s)) = playing s \<and>
            fresh (state_of (onmessage env m s)) = fresh s \<and>
            calls (state_of (onmessage env m s)) = calls s)"
  using assms
  by (simp add: onmessage_def onmessage_head_def interrupted_part_def sessionState_def)

theorem turn_without_audio_sets_speaking_witness:
  "sessionState (run session_opened initial) = Listening \<and>
   playing (run session_opened initial) = {} \<and>
   sessionState (state_of (onmessage env_ok turn_without_audio (run session_opened initial))) = Speaking \<and>
   playing (state_of (onmessage env_ok turn_without_audio (run session_opened initial))) = {}"
proof -
  have a: "isLiveActive (run session_opened initial)"
    and b: "playing (run session_opened initial) = {}"
    and c: "sessionState (run session_opened initial) = Listening"
    by (simp_all add: input_defs handler_defs sessionState_def)
  have p: "base64Audio [Part None] = None"
    by (simp add: base64Audio_def)
  from turn_without_audio_sets_speaking [of turn_without_audio
      "\<lparr>modelTurn = Some \<lparr>parts = Some [Part None]\<rparr>, interrupted = False\<rparr>"
      "\<lparr>parts = Some [Part None]\<rparr>" "[Part None]" env_ok "run session_opened initial"] a b c p
  show ?thesis by (simp add: turn_without_audio_def sessionState_def)
qed

text \<open>
  Claim C8, as stated, fails: when the payload cannot be decoded the handler throws and
  logs nothing; the call log is what it was.
\<close>

theorem decode_failure_not_logged:
  "onmessage env_undecodable (chunk ''QUJD'') (run one_chunk initial) =
     Throws EncodingError (run one_chunk initial) \<and>
   calls (run one_chunk initial) = [SourceStart 0] \<and>
   isLuminaSpeaking (run one_chunk initial) \<and>
   onmessage env_atob_rejects (chunk ''@@@@'') initial =
     Throws InvalidCharacterError (initial\<lparr>isLuminaSpeaking := True\<rparr>) \<and>
   calls (initial\<lparr>isLuminaSpeaking := True\<rparr>) = []"
  by (simp add: input_defs handler_defs onmessage_def)

text \<open>
  Claim C8, amended. When \<^verbatim>\<open>atob\<close> or \<^verbatim>\<open>decodeAudioData\<close> rejects the
  payload of a chunk, the handler throws at that call. All it has changed by then are
  the two flags: no source is created, the ref, the transport and the audio context are
  untouched, no teardown runs, and nothing is logged.
\<close>

theorem decode_failure_drops_chunk:
  assumes "serverContent m = Some sc" and "modelTurn sc = Some turn"
    and "parts turn = Some ps" and "base64Audio ps = Some b"
    and "\<not> (atobValid env b \<and> decodable env b)"
  shows "onmessage env m s =
           Throws (if atobValid env b then EncodingError else InvalidCharacterError)
             (s\<lparr>isLuminaSpeaking := True, isLuminaThinking := False\<rparr>)"
  using assms
  by (simp add: onmessage_def onmessage_head_def onmessage_resume_def)

theorem decode_failure_drops_chunk_witness:
  "onmessage env_undecodable (chunk ''QUJD'') (run session_opened initial) =
     Throws EncodingError (run session_opened initial\<lparr>isLuminaSpeaking := True, isLuminaThinking := False\<rparr>)"
proof -
  have p: "base64Audio [Part (Some ''QUJD'')] = Some ''QUJD''"
    by (simp add: base64Audio_def)
  have e: "\<not> (atobValid env_undecodable ''QUJD'' \<and> decodable env_undecodable ''QUJD'')"
    and a: "atobValid env_undecodable ''QUJD''"
    by (simp_all add: env_undecodable_def env_ok_def)
  from decode_failure_drops_chunk [of "chunk ''QUJD''"
      "\<lparr>modelTurn = Some \<lparr>parts = Some [Part (Some ''QUJD'')]\<rparr>, interrupted = False\<rparr>"
      "\<lparr>parts = Some [Part (Some ''QUJD'')]\<rparr>" "[Part (Some ''QUJD'')]" "''QUJD''"
      env_undecodable "run session_opened initial"] p e a
  show ?thesis by (simp add: chunk_def)
qed

subsection \<open>The interrupted flag\<close>

text \<open>
  Claim C2, as stated, fails for a message that carries the \<^verbatim>\<open>interrupted\<close>
  flag together with a payload \<^verbatim>\<open>atob\<close> rejects: the handler throws before it
  reaches the flag, and the source goes on playing.
\<close>

theorem interrupted_after_failed_payload_counterexample:
  "playing (run one_chunk initial) = {0} \<and>
   onmessage env_atob_rejects (interrupted_chunk ''@@@@'') (run one_chunk initial) =
     Throws InvalidCharacterError (run one_chunk initial) \<and>
   playing (state_of (onmessage env_atob_rejects (interrupted_chunk ''@@@@'') (run one_chunk initial))) = {0} \<and>
   currentAudioSourceRef (state_of (onmessage env_atob_rejects (interrupted_chunk ''@@@@'') (run one_chunk initial))) = Some 0"
  by (simp add: input_defs handler_defs onmessage_def)

lemma interrupted_part_stops:
  assumes "sources_ok s" and "serverContent m = Some sc" and "interrupted sc"
  shows "interrupted_part m s =
           Returns (s\<lparr>isLuminaSpeaking := False, currentAudioSourceRef := None, playing := {},
             calls := calls s @ (case currentAudioSourceRef s of None \<Rightarrow> [] | Some h \<Rightarrow> [SourceStop h])\<rparr>)"
proof (cases "currentAudioSourceRef s")
  case None
  then have "playing s = {}" using assms(1) by (simp add: sources_ok_def)
  then show ?thesis using None assms(2,3) by (simp add: interrupted_part_def)
next
  case (Some h)
  then have "h \<in> started s" and "playing s - {h} = {}"
    using assms(1) by (auto simp: sources_ok_def)
  then show ?thesis using Some assms(2,3)
    by (simp add: interrupted_part_def source_stop_def Let_def)
qed

lemma head_cases:
  "onmessage_head env m s = Proceed s1 \<or> onmessage_head env m s = AwaitDecode b s1
     \<Longrightarrow> s1 = s \<or> s1 = s\<lparr>isLuminaSpeaking := True, isLuminaThinking := False\<rparr>"
  by (auto simp: onmessage_head_def Let_def split: option.splits if_splits)

lemma head_ok:
  assumes "sources_ok s"
    and "onmessage_head env m s = Proceed s1 \<or> onmessage_head env m s = AwaitDecode b s1"
  shows "sources_ok s1" and "calls s1 = calls s" and "currentAudioSourceRef s1 = currentAudioSourceRef s"
  using head_cases [OF assms(2)] assms(1) ok_flags by auto

lemma carries_cases:
  "carries sc = NoTurn \<longleftrightarrow> modelTurn sc = None"
  "carries sc = TurnWithoutParts \<longleftrightarrow> (\<exists>turn. modelTurn sc = Some turn \<and> parts turn = None)"
  "carries sc = TurnWithoutAudio \<longleftrightarrow>
     (\<exists>turn ps. modelTurn sc = Some turn \<and> parts turn = Some ps \<and> base64Audio ps = None)"
  "carries sc = TurnWithAudio b \<longleftrightarrow>
     (\<exists>turn ps. modelTurn sc = Some turn \<and> parts turn = Some ps \<and> base64Audio ps = Some b)"
  by (auto simp: carries_def split: option.splits)

lemma head_no_payload:
  assumes "serverContent m = Some sc" and "carries sc = NoTurn \<or> carries sc = TurnWithoutAudio"
  shows "\<exists>s1. onmessage_head env m s = Proceed s1"
  using assms
  by (auto simp: carries_cases onmessage_head_def Let_def)

lemma head_without_parts:
  assumes "serverContent m = Some sc" and "carries sc = TurnWithoutParts"
  shows "onmessage env m s =
           Throws TypeError (s\<lparr>isLuminaSpeaking := True, isLuminaThinking := False\<rparr>)"
  using assms
  by (auto simp: carries_cases onmessage_def onmessage_head_def Let_def)

lemma head_with_audio:
  assumes "serverContent m = Some sc" and "carries sc = TurnWithAudio b"
  shows "onmessage_head env m s =
           (if atobValid env b
            then AwaitDecode b (s\<lparr>isLuminaSpeaking := True, isLuminaThinking := False\<rparr>)
            else HeadThrows InvalidCharacterError
                   (s\<lparr>isLuminaSpeaking := True, isLuminaThinking := False\<rparr>))"
  using assms
  by (auto simp: carries_cases onmessage_head_def Let_def)

lemma payload_rejected:
  assumes "serverContent m = Some sc" and "carries sc = TurnWithAudio b"
    and "\<not> (atobValid env b \<and> decodable env b)"
  shows "onmessage env m s =
           Throws (if atobValid env b then EncodingError else InvalidCharacterError)
             (s\<lparr>isLuminaSpeaking := True, isLuminaThinking := False\<rparr>)"
  using assms(3) head_with_audio [OF assms(1,2), of env s]
  by (auto simp: onmessage_def onmessage_resume_def)

lemma play_chunk_ok_Returns:
  assumes "sources_ok s"
  shows "\<exists>s'. play_chunk s = Returns s' \<and> sources_ok s'"
proof -
  obtain s' where r: "play_chunk s = Returns s'"
    using play_chunk_Returns [OF assms] by blast
  then have "sources_ok s'"
    using ok_play_chunk [OF assms] by simp
  with r show ?thesis by blast
qed

lemma interrupted_Returns:
  assumes "s = run es initial" and "serverContent m = Some sc" and "interrupted sc"
    and "onmessage env m s = Returns s'"
  shows "playing s' = {} \<and> currentAudioSourceRef s' = None \<and> \<not> isLuminaSpeaking s'"
proof -
  have ok: "sources_ok s"
    unfolding assms(1) by (rule reachable_ok)
  show ?thesis
  proof (cases "onmessage_head env m s")
    case (Proceed s1)
    then have "sources_ok s1" using head_ok(1) [OF ok] by blast
    from interrupted_part_stops [OF this assms(2,3)] assms(4) Proceed
    show ?thesis by (auto simp: onmessage_def)
  next
    case (AwaitDecode b s1)
    then have ok1: "sources_ok s1" using head_ok(1) [OF ok] by blast
    obtain s2 where s2: "play_chunk s1 = Returns s2" and ok2: "sources_ok s2"
      using play_chunk_ok_Returns [OF ok1] by blast
    from interrupted_part_stops [OF ok2 assms(2,3)] assms(4) AwaitDecode s2
    show ?thesis by (auto simp: onmessage_def onmessage_resume_def split: if_splits)
  next
    case (HeadThrows e s1)
    with assms(4) show ?thesis by (simp add: onmessage_def)
  qed
qed

lemma interrupted_no_payload:
  assumes "s = run es initial" and "serverContent m = Some sc" and "interrupted sc"
    and "carries sc = NoTurn \<or> carries sc = TurnWithoutAudio"
  shows "case onmessage env m s of
           Returns s' \<Rightarrow>
             playing s' = {} \<and> currentAudioSourceRef s' = None \<and> \<not> isLuminaSpeaking s' \<and>
             calls s' = calls s @ (case currentAudioSourceRef s of None \<Rightarrow> [] | Some h \<Rightarrow> [SourceStop h])
         | Throws e s' \<Rightarrow> False"
proof -
  have ok: "sources_ok s"
    unfolding assms(1) by (rule reachable_ok)
  obtain s1 where h: "onmessage_head env m s = Proceed s1"
    using head_no_payload [OF assms(2,4)] by blast
  then have ok1: "sources_ok s1" and c: "calls s1 = calls s"
    and r: "currentAudioSourceRef s1 = currentAudioSourceRef s"
    using head_ok [OF ok] by blast+
  from interrupted_part_stops [OF ok1 assms(2,3)] h c r
  show ?thesis by (simp add: onmessage_def)
qed

lemma interrupted_decoded:
  assumes "s = run es initial" and "serverContent m = Some sc" and "interrupted sc"
    and "carries sc = TurnWithAudio b" and "atobValid env b" and "decodable env b"
  shows "case onmessage env m s of
           Returns s' \<Rightarrow>
             playing s' = {} \<and> currentAudioSourceRef s' = None \<and> \<not> isLuminaSpeaking s'
         | Throws e s' \<Rightarrow> False"
proof -
  have ok: "sources_ok s"
    unfolding assms(1) by (rule reachable_ok)
  let ?s1 = "s\<lparr>isLuminaSpeaking := True, isLuminaThinking := False\<rparr>"
  have h: "onmessage_head env m s = AwaitDecode b ?s1"
    using head_with_audio [OF assms(2,4), of env s] assms(5) by simp
  have ok1: "sources_ok ?s1" using ok by (rule ok_flags)
  obtain s2 where s2: "play_chunk ?s1 = Returns s2" and ok2: "sources_ok s2"
    using play_chunk_ok_Returns [OF ok1] by blast
  from interrupted_part_stops [OF ok2 assms(2,3)] h s2 assms(6)
  show ?thesis by (simp add: onmessage_def onmessage_resume_def)
qed

text \<open>
  Claim C2, amended. A message with the \<^verbatim>\<open>interrupted\<close> flag is handled in one of
  four ways, by what else it carries. With no model turn, or a model turn whose first
  part has no audio payload, the handler does not suspend: in one run it stops the source
  the ref holds, clears the ref and the Speaking flag, and no source plays afterwards.
  With a payload that \<^verbatim>\<open>atob\<close> accepts and the decoder decodes, the handler suspends
  on the decoder and, run on, ends the same way. With a model turn that has no
  \<^verbatim>\<open>parts\<close>, or a payload that is rejected, the handler throws before it reaches the
  flag, having changed the two flags only.
\<close>

theorem interrupted_stops_playback:
  assumes "s = run es initial" and "serverContent m = Some sc" and "interrupted sc"
  shows "(carries sc = NoTurn \<or> carries sc = TurnWithoutAudio \<longrightarrow>
            (\<exists>s1. onmessage_head env m s = Proceed s1) \<and>
            (case onmessage env m s of
               Returns s' \<Rightarrow>
                 playing s' = {} \<and> currentAudioSourceRef s' = None \<and> \<not> isLuminaSpeaking s' \<and>
                 calls s' = calls s @
                   (case currentAudioSourceRef s of None \<Rightarrow> [] | Some h \<Rightarrow> [SourceStop h])
             | Throws e s' \<Rightarrow> False)) \<and>
         (\<forall>b. carries sc = TurnWithAudio b \<and> atobValid env b \<and> decodable env b \<longrightarrow>
            onmessage_head env m s =
              AwaitDecode b (s\<lparr>isLuminaSpeaking := True, isLuminaThinking := False\<rparr>) \<and>
            (case onmessage env m s of
               Returns s' \<Rightarrow>
                 playing s' = {} \<and> currentAudioSourceRef s' = None \<and> \<not> isLuminaSpeaking s'
             | Throws e s' \<Rightarrow> False)) \<and>
         (carries sc = TurnWithoutParts \<longrightarrow>
            onmessage env m s =
              Throws TypeError (s\<lparr>isLuminaSpeaking := True, isLuminaThinking := False\<rparr>)) \<and>
         (\<forall>b. carries sc = TurnWithAudio b \<and> \<not> (atobValid env b \<and> decodable env b) \<longrightarrow>
            onmessage env m s =
              Throws (if atobValid env b then EncodingError else InvalidCharacterError)
                (s\<lparr>isLuminaSpeaking := True, isLuminaThinking := False\<rparr>)) \<and>
         (\<forall>s'. onmessage env m s = Returns s' \<longrightarrow>
            playing s' = {} \<and> currentAudioSourceRef s' = None \<and> \<not> isLuminaSpeaking s')"
proof -
  have a: "carries sc = NoTurn \<or> carries sc = TurnWithoutAudio \<longrightarrow>
            (\<exists>s1. onmessage_head env m s = Proceed s1) \<and>
            (case onmessage env m s of
               Returns s' \<Rightarrow>
                 playing s' = {} \<and> currentAudioSourceRef s' = None \<and> \<not> isLuminaSpeaking s' \<and>
                 calls s' = calls s @
                   (case currentAudioSourceRef s of None \<Rightarrow> [] | Some h \<Rightarrow> [SourceStop h])
             | Throws e s' \<Rightarrow> False)"
    using head_no_payload [OF assms(2)] interrupted_no_payload [OF assms] by blast
  have b: "\<forall>b. carries sc = TurnWithAudio b \<and> atobValid env b \<and> decodable env b \<longrightarrow>
            onmessage_head env m s =
              AwaitDecode b (s\<lparr>isLuminaSpeaking := True, isLuminaThinking := False\<rparr>) \<and>
            (case onmessage env m s of
               Returns s' \<Rightarrow>
                 playing s' = {} \<and> currentAudioSourceRef s' = None \<and> \<not> isLuminaSpeaking s'
             | Throws e s' \<Rightarrow> False)"
    using head_with_audio [OF assms(2), of _ env s] interrupted_decoded [OF assms] by simp
  have c: "carries sc = TurnWithoutParts \<longrightarrow>
            onmessage env m s =
              Throws TypeError (s\<lparr>isLuminaSpeaking := True, isLuminaThinking := False\<rparr>)"
    using head_without_parts [OF assms(2)] by blast
  have d: "\<forall>b. carries sc = TurnWithAudio b \<and> \<not> (atobValid env b \<and> decodable env b) \<longrightarrow>
            onmessage env m s =
              Throws (if atobValid env b then EncodingError else InvalidCharacterError)
                (s\<lparr>isLuminaSpeaking := True, isLuminaThinking := False\<rparr>)"
    using payload_rejected [OF assms(2)] by blast
  have e: "\<forall>s'. onmessage env m s = Returns s' \<longrightarrow>
            playing s' = {} \<and> currentAudioSourceRef s' = None \<and> \<not> isLuminaSpeaking s'"
    using interrupted_Returns [OF assms] by blast
  from a b c d e show ?thesis by blast
qed

theorem interrupted_stops_playback_witness:
  "playing (run one_chunk initial) = {0} \<and>
   onmessage env_ok interrupted_only (run one_chunk initial) =
     Returns (run one_chunk initial\<lparr>isLuminaSpeaking := False, currentAudioSourceRef := None,
       playing := {}, calls := [SourceStart 0, SourceStop 0]\<rparr>) \<and>
   (case onmessage env_ok (interrupted_chunk ''REVG'') (run one_chunk initial) of
      Returns s' \<Rightarrow> playing s' = {} \<and> currentAudioSourceRef s' = None
    | Throws e s' \<Rightarrow> False) \<and>
   onmessage env_ok interrupted_turn_without_parts (run one_chunk initial) =
     Throws TypeError (run one_chunk initial) \<and>
   playing (state_of (onmessage env_ok interrupted_turn_without_parts (run one_chunk initial))) = {0}"
proof -
  have a: "playing (run one_chunk initial) = {0}"
    and b: "onmessage env_ok interrupted_only (run one_chunk initial) =
     Returns (run one_chunk initial\<lparr>isLuminaSpeaking := False, currentAudioSourceRef := None,
       playing := {}, calls := [SourceStart 0, SourceStop 0]\<rparr>)"
    and f: "run one_chunk initial\<lparr>isLuminaSpeaking := True, isLuminaThinking := False\<rparr> =
      run one_chunk initial"
    by (simp_all add: input_defs handler_defs onmessage_def)
  have k: "carries \<lparr>modelTurn = Some \<lparr>parts = Some [Part (Some ''REVG'')]\<rparr>, interrupted = True\<rparr>
      = TurnWithAudio ''REVG''"
    and kp: "carries \<lparr>modelTurn = Some \<lparr>parts = None\<rparr>, interrupted = True\<rparr> = TurnWithoutParts"
    by (simp_all add: carries_def base64Audio_def)
  from interrupted_stops_playback [OF refl, of "interrupted_chunk ''REVG''"
      "\<lparr>modelTurn = Some \<lparr>parts = Some [Part (Some ''REVG'')]\<rparr>, interrupted = True\<rparr>"
      env_ok one_chunk] k
  have c: "case onmessage env_ok (interrupted_chunk ''REVG'') (run one_chunk initial) of
      Returns s' \<Rightarrow> playing s' = {} \<and> currentAudioSourceRef s' = None
    | Throws e s' \<Rightarrow> False"
    by (auto simp: interrupted_chunk_def env_ok_def split: result.splits)
  from interrupted_stops_playback [OF refl, of interrupted_turn_without_parts
      "\<lparr>modelTurn = Some \<lparr>parts = None\<rparr>, interrupted = True\<rparr>" env_ok one_chunk] kp
  have d: "onmessage env_ok interrupted_turn_without_parts (run one_chunk initial) =
      Throws TypeError (run one_chunk initial)"
    by (simp add: interrupted_turn_without_parts_def f)
  from a b c d show ?thesis by simp
qed

section \<open>Teardown and start\<close>

lemmas teardown_defs = stopLiveVoice_def stop_session_part_def stop_context_part_def
  stop_source_part_def session_close_def context_close_def source_stop_def
  session_calls_def context_calls_def source_calls_def Let_def

lemma stop_session_throws:
  assumes "liveSessionRef s \<noteq> None" and "sessionCloseThrows env"
  shows "stopLiveVoice env s = Throws CloseError (s\<lparr>calls := calls s @ session_calls s\<rparr>)"
  using assms by (auto simp: teardown_defs)

lemma stop_context_throws:
  assumes "liveSessionRef s = None \<or> \<not> sessionCloseThrows env"
    and "context_calls s \<noteq> []" and "contextCloseThrows env"
  shows "stopLiveVoice env s =
           Throws InvalidStateError
             (s\<lparr>liveSessionRef := None, calls := calls s @ session_calls s @ context_calls s\<rparr>)"
  using assms by (cases "liveSessionRef s") (auto simp: teardown_defs split: option.splits if_splits)

lemma stop_returns:
  assumes "sources_ok s"
    and "liveSessionRef s = None \<or> \<not> sessionCloseThrows env"
    and "context_calls s = [] \<or> \<not> contextCloseThrows env"
  shows "case stopLiveVoice env s of
           Returns s' \<Rightarrow>
             calls s' = calls s @ session_calls s @ context_calls s @ source_calls s \<and>
             sessionState s' = Idle \<and> liveSessionRef s' = None \<and>
             currentAudioSourceRef s' = None \<and> playing s' = {}
         | Throws e s' \<Rightarrow> False"
proof (cases "currentAudioSourceRef s")
  case None
  then have "playing s = {}" using assms(1) by (simp add: sources_ok_def)
  then show ?thesis using None assms(2,3)
    by (auto simp: teardown_defs sessionState_def split: option.splits if_splits)
next
  case (Some h)
  then have "h \<in> started s" and "playing s - {h} = {}"
    using assms(1) by (auto simp: sources_ok_def)
  then show ?thesis using Some assms(2,3)
    by (auto simp: teardown_defs sessionState_def split: option.splits if_splits)
qed

lemma stop_keeps_microphone: "micStreams (state_of (stopLiveVoice env s)) = micStreams s"
  by (auto simp: teardown_defs split: option.splits if_splits)

lemmas run_defs = input_defs handler_defs session_playing_def env_session_close_throws_def
  env_no_microphone_def

text \<open>
  Claim C4, as stated, fails on a session that is playing a chunk: teardown closes the
  transport first and the audio context second and stops the source last, it makes no
  call that releases the microphone stream, and when the transport's \<^verbatim>\<open>close()\<close>
  throws nothing after it is attempted: the source plays on, the audio context stays
  open and the overlay stays up.
\<close>

theorem teardown_order_counterexample:
  "calls (run session_playing initial) =
     [NewAudioContext 0, GetUserMedia, ConnectLive, ConsoleLog ''Live session opened'',
      SourceStart 2] \<and>
   micStreams (run session_playing initial) = 1 \<and>
   calls (state_of (stopLiveVoice env_ok (run session_playing initial))) =
     calls (run session_playing initial) @ [SessionClose 1, ContextClose 0, SourceStop 2] \<and>
   micStreams (state_of (stopLiveVoice env_ok (run session_playing initial))) = 1 \<and>
   stopLiveVoice env_session_close_throws (run session_playing initial) =
     Throws CloseError
       (run session_playing initial
          \<lparr>calls := calls (run session_playing initial) @ [SessionClose 1]\<rparr>) \<and>
   playing (state_of (stopLiveVoice env_session_close_throws (run session_playing initial))) = {2} \<and>
   closedContexts (state_of (stopLiveVoice env_session_close_throws (run session_playing initial))) = {} \<and>
   sessionState (state_of (stopLiveVoice env_session_close_throws (run session_playing initial))) = Speaking"
  by (simp add: run_defs teardown_defs sessionState_def)

text \<open>
  Claim C4, amended. From any state the event loop can reach, teardown calls, in this
  order, \<^verbatim>\<open>close()\<close> on the transport if the ref holds one, \<^verbatim>\<open>close()\<close> on the
  audio context if the ref holds one that is not closed, and \<^verbatim>\<open>stop()\<close> on the
  source if the ref holds one, and then clears the three flags. A \<^verbatim>\<open>close()\<close>
  that throws ends teardown there: nothing after it is attempted. The count of open
  microphone streams is never changed.
\<close>

theorem teardown_in_code_order:
  assumes "s = run es initial"
  shows "(liveSessionRef s \<noteq> None \<and> sessionCloseThrows env \<longrightarrow>
            stopLiveVoice env s = Throws CloseError (s\<lparr>calls := calls s @ session_calls s\<rparr>)) \<and>
         ((liveSessionRef s = None \<or> \<not> sessionCloseThrows env) \<and>
            context_calls s \<noteq> [] \<and> contextCloseThrows env \<longrightarrow>
            stopLiveVoice env s =
              Throws InvalidStateError
                (s\<lparr>liveSessionRef := None,
                   calls := calls s @ session_calls s @ context_calls s\<rparr>)) \<and>
         ((liveSessionRef s = None \<or> \<not> sessionCloseThrows env) \<and>
            (context_calls s = [] \<or> \<not> contextCloseThrows env) \<longrightarrow>
            (case stopLiveVoice env s of
               Returns s' \<Rightarrow>
                 calls s' = calls s @ session_calls s @ context_calls s @ source_calls s \<and>
                 sessionState s' = Idle \<and> liveSessionRef s' = None \<and>
                 currentAudioSourceRef s' = None \<and> playing s' = {}
             | Throws e s' \<Rightarrow> False)) \<and>
         micStreams (state_of (stopLiveVoice env s)) = micStreams s"
proof -
  have ok: "sources_ok s"
    unfolding assms by (rule reachable_ok)
  show ?thesis
    using stop_session_throws [of s env] stop_context_throws [of s env]
      stop_returns [OF ok, of env] stop_keeps_microphone [of env s]
    by blast
qed

theorem teardown_in_code_order_witness:
  "stopLiveVoice env_ok (run session_playing initial) =
     Returns (run session_playing initial
       \<lparr>isLiveActive := False, isLuminaSpeaking := False, liveSessionRef := None,
        audioContextRef := None, currentAudioSourceRef := None, closedContexts := {0},
        playing := {},
        calls := calls (run session_playing initial) @ [SessionClose 1, ContextClose 0, SourceStop 2]\<rparr>) \<and>
   micStreams (state_of (stopLiveVoice env_ok (run session_playing initial))) = 1"
proof -
  have a: "stopLiveVoice env_ok (run session_playing initial) =
     Returns (run session_playing initial
       \<lparr>isLiveActive := False, isLuminaSpeaking := False, liveSessionRef := None,
        audioContextRef := None, currentAudioSourceRef := None, closedContexts := {0},
        playing := {},
        calls := calls (run session_playing initial) @ [SessionClose 1, ContextClose 0, SourceStop 2]\<rparr>)"
    and b: "micStreams (run session_playing initial) = 1"
    by (simp_all add: run_defs teardown_defs)
  from teardown_in_code_order [OF refl, of session_playing env_ok] a b
  show ?thesis by simp
qed

text \<open>
  Claim C5, as stated, fails after a session was started: two calls of
  \<^verbatim>\<open>stopLiveVoice\<close> in a row end in Idle, and the microphone stream that start
  acquired is still open.
\<close>

theorem stop_twice_counterexample:
  "micStreams (run session_opened initial) = 1 \<and>
   sessionState
     (state_of (stopLiveVoice env_ok (state_of (stopLiveVoice env_ok (run session_opened initial))))) = Idle \<and>
   micStreams
     (state_of (stopLiveVoice env_ok (state_of (stopLiveVoice env_ok (run session_opened initial))))) = 1"
  by (simp add: run_defs teardown_defs sessionState_def)

lemma stop_initial: "stopLiveVoice env initial = Returns initial"
  by (simp add: teardown_defs initial_def)

lemma stop_Returns_idle:
  assumes "stopLiveVoice env s = Returns s'"
  shows "\<not> isLiveActive s'" and "\<not> isLuminaSpeaking s'" and "\<not> isLuminaThinking s'"
    and "liveSessionRef s' = None" and "currentAudioSourceRef s' = None"
    and "case audioContextRef s' of None \<Rightarrow> True | Some c \<Rightarrow> c \<in> closedContexts s'"
  using assms
  by (auto simp: teardown_defs split: option.splits if_splits)

lemma stop_again:
  assumes "stopLiveVoice env s = Returns s'"
  shows "stopLiveVoice env' s' = Returns s'"
proof -
  note i = stop_Returns_idle [OF assms]
  have "s'\<lparr>isLiveActive := False, isLuminaSpeaking := False, isLuminaThinking := False\<rparr> = s'"
    using i(1-3) by simp
  then show ?thesis
    using i(4-6) by (auto simp: teardown_defs split: option.splits)
qed

text \<open>
  Claim C5, amended. \<^verbatim>\<open>stopLiveVoice\<close> in the initial state returns without a
  call or a change: the system is Idle and holds no microphone stream. After any
  \<^verbatim>\<open>stopLiveVoice\<close> that returned, a second one returns the very same state
  whatever the surroundings would answer, since it calls nothing; that state is Idle, its
  transport and source refs are empty and its audio context ref is empty or holds a
  closed context. The microphone streams open before are open after.
\<close>

theorem stop_is_reentrant:
  "stopLiveVoice env initial = Returns initial \<and> sessionState initial = Idle \<and>
   micStreams initial = 0 \<and>
   (stopLiveVoice env s = Returns s' \<longrightarrow>
      stopLiveVoice env' s' = Returns s' \<and> sessionState s' = Idle \<and>
      liveSessionRef s' = None \<and> currentAudioSourceRef s' = None \<and>
      (case audioContextRef s' of None \<Rightarrow> True | Some c \<Rightarrow> c \<in> closedContexts s') \<and>
      micStreams s' = micStreams s)"
proof -
  have a: "stopLiveVoice env initial = Returns initial \<and> sessionState initial = Idle \<and>
      micStreams initial = 0"
    by (simp add: stop_initial) (simp add: initial_def sessionState_def)
  have b: "stopLiveVoice env s = Returns s' \<longrightarrow>
      stopLiveVoice env' s' = Returns s' \<and> sessionState s' = Idle \<and>
      liveSessionRef s' = None \<and> currentAudioSourceRef s' = None \<and>
      (case audioContextRef s' of None \<Rightarrow> True | Some c \<Rightarrow> c \<in> closedContexts s') \<and>
      micStreams s' = micStreams s"
  proof
    assume r: "stopLiveVoice env s = Returns s'"
    have "micStreams s' = micStreams s"
      using stop_keeps_microphone [of env s] r by simp
    then show "stopLiveVoice env' s' = Returns s' \<and> sessionState s' = Idle \<and>
      liveSessionRef s' = None \<and> currentAudioSourceRef s' = None \<and>
      (case audioContextRef s' of None \<Rightarrow> True | Some c \<Rightarrow> c \<in> closedContexts s') \<and>
      micStreams s' = micStreams s"
      using stop_again [OF r] stop_Returns_idle [OF r] by (simp add: sessionState_def)
  qed
  from a b show ?thesis by blast
qed

theorem stop_is_reentrant_witness:
  "stopLiveVoice env_session_close_throws
     (state_of (stopLiveVoice env_ok (run session_playing initial))) =
     stopLiveVoice env_ok (run session_playing initial) \<and>
   sessionState (state_of (stopLiveVoice env_ok (run session_playing initial))) = Idle \<and>
   micStreams (state_of (stopLiveVoice env_ok (run session_playing initial))) = 1"
proof -
  have a: "stopLiveVoice env_ok (run session_playing initial) =
     Returns (run session_playing initial
       \<lparr>isLiveActive := False, isLuminaSpeaking := False, liveSessionRef := None,
        audioContextRef := None, currentAudioSourceRef := None, closedContexts := {0},
        playing := {},
        calls := calls (run session_playing initial) @ [SessionClose 1, ContextClose 0, SourceStop 2]\<rparr>)"
    and b: "micStreams (run session_playing initial) = 1"
    by (simp_all add: run_defs teardown_defs)
  from stop_is_reentrant [of env_ok "run session_playing initial" _ env_session_close_throws] a b
  show ?thesis by simp
qed

subsection \<open>Start without a microphone\<close>

lemma stop_calls:
  "\<exists>cs. calls (state_of (stopLiveVoice env s)) = calls s @ cs \<and> list_all is_teardown_call cs"
  by (auto simp: teardown_defs is_teardown_call_def split: option.splits if_splits)

lemma start_catch_calls:
  "\<exists>cs. calls (start_catch env e s) = calls s @ ConsoleError e # cs \<and>
     list_all is_teardown_call cs"
  using stop_calls [of env "s\<lparr>calls := calls s @ [ConsoleError e]\<rparr>"]
  by (auto simp: start_catch_def start_caught_def)

lemma start_without_microphone_calls:
  assumes "\<not> micAvailable env"
  shows "\<exists>cs. calls (startLiveVoice env s) =
           calls s @ [NewAudioContext (fresh s), GetUserMedia, ConsoleError NotAllowedError] @ cs \<and>
           list_all is_teardown_call cs"
  using assms start_catch_calls [of env NotAllowedError "start_head s"]
  by (auto simp: startLiveVoice_def start_mic_settled_def start_head_def)

lemma start_without_microphone_idle:
  assumes "sources_ok s" and "\<not> micAvailable env"
    and "\<not> sessionCloseThrows env" and "\<not> contextCloseThrows env"
  shows "sessionState (startLiveVoice env s) = Idle"
    and "liveSessionRef (startLiveVoice env s) = None"
    and "playing (startLiveVoice env s) = {}"
proof -
  let ?s1 = "start_head s\<lparr>calls := calls (start_head s) @ [ConsoleError NotAllowedError]\<rparr>"
  have ok1: "sources_ok ?s1"
    using ok_start_head [OF assms(1)] by (simp add: sources_ok_def)
  have eq: "startLiveVoice env s = state_of (stopLiveVoice env ?s1)"
    using assms(2) by (simp add: startLiveVoice_def start_mic_settled_def start_catch_def start_caught_def)
  from stop_returns [OF ok1, of env] assms(3,4)
  show "sessionState (startLiveVoice env s) = Idle"
    and "liveSessionRef (startLiveVoice env s) = None"
    and "playing (startLiveVoice env s) = {}"
    unfolding eq by (auto split: result.splits)
qed

text \<open>
  Claim C6, as stated, fails: the flags are set before the microphone is requested, so
  while the request is pending the controller has left Idle and shows Thinking.
\<close>

theorem start_leaves_idle_counterexample:
  "sessionState initial = Idle \<and>
   fire env_no_microphone StartClicked initial = start_head initial \<and>
   isLiveActive (start_head initial) \<and> isLuminaThinking (start_head initial) \<and>
   sessionState (start_head initial) = Thinking \<and>
   calls (start_head initial) = [NewAudioContext 0, GetUserMedia]"
  by (simp add: initial_def start_head_def sessionState_def)

text \<open>
  Claim C6, amended. When the microphone request fails, the controller has left Idle
  while the request was pending; the error is logged and teardown runs; the only calls
  after the log are teardown calls, so the transport is never opened and no microphone
  stream is added; and when no \<^verbatim>\<open>close()\<close> of teardown throws the controller is
  Idle again with no transport and nothing playing.
\<close>

theorem microphone_failure_aborts_start:
  assumes "s = run es initial" and "\<not> micAvailable env"
  shows "sessionState (start_head s) \<noteq> Idle \<and>
         startLiveVoice env s = start_mic_settled env (start_head s) \<and>
         micStreams (startLiveVoice env s) = micStreams s \<and>
         (\<exists>cs. calls (startLiveVoice env s) =
            calls s @ [NewAudioContext (fresh s), GetUserMedia, ConsoleError NotAllowedError] @ cs \<and>
            list_all is_teardown_call cs \<and> ConnectLive \<notin> set cs) \<and>
         (\<not> sessionCloseThrows env \<and> \<not> contextCloseThrows env \<longrightarrow>
            sessionState (startLiveVoice env s) = Idle \<and>
            liveSessionRef (startLiveVoice env s) = None \<and>
            playing (startLiveVoice env s) = {})"
proof -
  have ok: "sources_ok s"
    unfolding assms(1) by (rule reachable_ok)
  have a: "sessionState (start_head s) \<noteq> Idle"
    by (simp add: start_head_def sessionState_def)
  have b: "startLiveVoice env s = start_mic_settled env (start_head s)"
    using assms(2) by (simp add: startLiveVoice_def)
  have c: "micStreams (startLiveVoice env s) = micStreams s"
    using assms(2) stop_keeps_microphone [of env]
    by (simp add: b start_mic_settled_def start_catch_def start_caught_def start_head_def)
  obtain cs where cs: "calls (startLiveVoice env s) =
      calls s @ [NewAudioContext (fresh s), GetUserMedia, ConsoleError NotAllowedError] @ cs"
    and td: "list_all is_teardown_call cs"
    using start_without_microphone_calls [OF assms(2)] by blast
  have "ConnectLive \<notin> set cs"
    using td by (auto simp: list_all_iff is_teardown_call_def)
  with cs td have d: "\<exists>cs. calls (startLiveVoice env s) =
            calls s @ [NewAudioContext (fresh s), GetUserMedia, ConsoleError NotAllowedError] @ cs \<and>
            list_all is_teardown_call cs \<and> ConnectLive \<notin> set cs"
    by blast
  from a b c d start_without_microphone_idle [OF ok assms(2)]
  show ?thesis by blast
qed

theorem microphone_failure_aborts_start_witness:
  "startLiveVoice env_no_microphone initial =
     initial\<lparr>closedContexts := {0}, fresh := 1,
       calls := [NewAudioContext 0, GetUserMedia, ConsoleError NotAllowedError, ContextClose 0]\<rparr> \<and>
   sessionState (startLiveVoice env_no_microphone initial) = Idle \<and>
   sessionState (start_head initial) \<noteq> Idle"
proof -
  have a: "startLiveVoice env_no_microphone initial =
     initial\<lparr>closedContexts := {0}, fresh := 1,
       calls := [NewAudioContext 0, GetUserMedia, ConsoleError NotAllowedError, ContextClose 0]\<rparr>"
    by (simp add: run_defs teardown_defs startLiveVoice_def start_catch_def start_caught_def)
  have r: "initial = run [] initial"
    by simp
  have e: "\<not> micAvailable env_no_microphone" "\<not> sessionCloseThrows env_no_microphone"
    "\<not> contextCloseThrows env_no_microphone"
    by (simp_all add: env_no_microphone_def env_ok_def)
  from microphone_failure_aborts_start [OF r e(1)] e(2,3)
  have "sessionState (startLiveVoice env_no_microphone initial) = Idle"
    and "sessionState (start_head initial) \<noteq> Idle"
    by blast+
  with a show ?thesis by blast
qed

subsection \<open>The state after the transport has opened\<close>





section \<open>The frame encoder\<close>

lemma b64_table: "\<forall>n\<in>{..<64}. unb64 (b64 n) = n \<and> b64 n \<noteq> CHR ''=''"
  by code_simp

lemma unb64_b64: "n < 64 \<Longrightarrow> unb64 (b64 n) = n"
  and b64_not_pad: "n < 64 \<Longrightarrow> b64 n \<noteq> CHR ''=''"
  using b64_table by auto

lemma word_cat_bytes: "word_cat (ucast (drop_bit 8 w) :: 8 word) (ucast w :: 8 word) = (w :: 16 word)"
  by (rule bit_word_eqI) (auto simp: bit_simps)

lemma samples_of_buffer_bytes: "samples_of_bytes (buffer_bytes ws) = ws"
  by (induction ws) (simp_all add: buffer_bytes_def word_cat_bytes)

lemma sextets_rejoin:
  fixes n :: nat
  shows "n div 262144 * 262144 + n div 4096 mod 64 * 4096 + n div 64 mod 64 * 64 + n mod 64 = n"
proof -
  have "n div 64 mod 64 * 64 + n mod 64 = n mod 4096"
    by (simp add: mod_mult2_eq [of n 64 64, simplified])
  moreover have "n div 4096 mod 64 * 4096 + n mod 4096 = n mod 262144"
    by (simp add: mod_mult2_eq [of n 4096 64, simplified])
  moreover have "n div 262144 * 262144 + n mod 262144 = n"
    by simp
  ultimately show ?thesis by linarith
qed

lemma sextet_bounds:
  fixes n :: nat
  assumes "n < 16777216"
  shows "n div 262144 < 64" and "n div 4096 mod 64 < 64" and "n div 64 mod 64 < 64"
    and "n mod 64 < 64"
  using assms by simp_all

lemma three_bytes:
  fixes a b c :: nat
  assumes "a < 256" and "b < 256" and "c < 256"
  shows "a * 65536 + b * 256 + c < 16777216"
    and "(a * 65536 + b * 256 + c) div 65536 = a"
    and "(a * 65536 + b * 256 + c) div 256 mod 256 = b"
    and "(a * 65536 + b * 256 + c) mod 256 = c"
proof -
  show "a * 65536 + b * 256 + c < 16777216"
    using assms by simp
  show "(a * 65536 + b * 256 + c) div 65536 = a"
    using assms by simp
  have e: "a * 65536 + b * 256 + c = c + 256 * (b + 256 * a)"
    by simp
  have "(c + 256 * (b + 256 * a)) div 256 = b + 256 * a"
    using assms(3) by simp
  moreover have "(b + 256 * a) mod 256 = b"
    using assms(2) by simp
  ultimately show "(a * 65536 + b * 256 + c) div 256 mod 256 = b"
    unfolding e by simp
  have "(c + 256 * (b + 256 * a)) mod 256 = c mod 256"
    by (rule mod_mult_self2)
  then show "(a * 65536 + b * 256 + c) mod 256 = c"
    unfolding e using assms(3) by (simp only: mod_less)
qed

lemma unat_byte: "unat (a :: 8 word) < 256"
  using unsigned_less [of a, where 'a = nat] by simp

lemma unbase64_three:
  fixes a b c :: "8 word"
  defines "n \<equiv> unat a * 65536 + unat b * 256 + unat c"
  shows "unbase64 (b64 (n div 262144) # b64 (n div 4096 mod 64) # b64 (n div 64 mod 64)
           # b64 (n mod 64) # rest) = a # b # c # unbase64 rest"
proof -
  note tb = three_bytes [OF unat_byte [of a] unat_byte [of b] unat_byte [of c], folded n_def]
  note sb = sextet_bounds [OF tb(1)]
  have m: "unb64 (b64 (n div 262144)) * 262144 + unb64 (b64 (n div 4096 mod 64)) * 4096
      + unb64 (b64 (n div 64 mod 64)) * 64 + unb64 (b64 (n mod 64)) = n"
    using sb sextets_rejoin [of n] by (simp add: unb64_b64)
  show ?thesis
    using sb tb(2-4) by (simp add: b64_not_pad m Let_def)
qed

lemma unbase64_two:
  fixes a b :: "8 word"
  defines "n \<equiv> unat a * 65536 + unat b * 256"
  shows "unbase64 [b64 (n div 262144), b64 (n div 4096 mod 64), b64 (n div 64 mod 64), CHR ''='']
           = [a, b]"
proof -
  have z: "(0::nat) < 256" by simp
  have tb: "n < 16777216" "n div 65536 = unat a" "n div 256 mod 256 = unat b"
    using three_bytes [OF unat_byte [of a] unat_byte [of b] z] by (simp_all add: n_def)
  note sb = sextet_bounds [OF tb(1)]
  have "n = 64 * (unat a * 1024 + unat b * 4)"
    by (simp add: n_def)
  then have "n mod 64 = 0"
    by (metis mod_mult_self1_is_0)
  then have m: "unb64 (b64 (n div 262144)) * 262144 + unb64 (b64 (n div 4096 mod 64)) * 4096
      + unb64 (b64 (n div 64 mod 64)) * 64 = n"
    using sb sextets_rejoin [of n] by (simp add: unb64_b64)
  show ?thesis
    using sb tb(2,3) by (simp add: b64_not_pad m Let_def)
qed

lemma unbase64_one:
  fixes a :: "8 word"
  defines "n \<equiv> unat a * 65536"
  shows "unbase64 [b64 (n div 262144), b64 (n div 4096 mod 64), CHR ''='', CHR ''=''] = [a]"
proof -
  have z: "(0::nat) < 256" by simp
  have tb: "n < 16777216" "n div 65536 = unat a"
    using three_bytes [OF unat_byte [of a] z z] by (simp_all add: n_def)
  note sb = sextet_bounds [OF tb(1)]
  have "n = 4096 * (unat a * 16)"
    by (simp add: n_def)
  then have n0: "n mod 4096 = 0"
    by (metis mod_mult_self1_is_0)
  have "n div 64 mod 64 * 64 + n mod 64 = n mod 4096"
    by (simp add: mod_mult2_eq [of n 64 64, simplified])
  with n0 have "n div 64 mod 64 = 0" and "n mod 64 = 0"
    by simp_all
  then have m: "unb64 (b64 (n div 262144)) * 262144 + unb64 (b64 (n div 4096 mod 64)) * 4096 = n"
    using sb sextets_rejoin [of n] by (simp add: unb64_b64)
  show ?thesis
    using sb tb(2) by (simp add: b64_not_pad m)
qed

lemma unbase64_btoa: "unbase64 (btoa bs) = bs"
proof (induction bs rule: btoa.induct)
  case (1 a b c rest)
  then show ?case
    by (simp only: btoa.simps Let_def unbase64_three)
next
  case (2 a b)
  show ?case
    by (simp only: btoa.simps Let_def unbase64_two)
next
  case (3 a)
  show ?case
    by (simp only: btoa.simps Let_def unbase64_one)
next
  case 4
  show ?case by simp
qed

lemma frame_recovered: "samples_of_bytes (unbase64 (encode_frame inputData)) = pcmData inputData"
  by (simp add: encode_frame_def unbase64_btoa samples_of_buffer_bytes)

lemma trunc_bounds:
  fixes c :: rat
  assumes "- 32767 \<le> c" and "c \<le> 32767"
  shows "- 32767 \<le> trunc c \<and> trunc c \<le> 32767"
  using assms
  by (auto simp: trunc_def le_floor_iff floor_le_iff le_ceiling_iff ceiling_le_iff)

lemma trunc_clamped:
  "- 32767 \<le> trunc (max (- 1) (min 1 r) * 32767) \<and> trunc (max (- 1) (min 1 r) * 32767) \<le> 32767"
  by (rule trunc_bounds) (simp_all add: max_def min_def)

lemma sint_int16:
  assumes "- 32767 \<le> k" and "k \<le> 32767"
  shows "sint (word_of_int k :: 16 word) = k"
  using assms by (simp add: sint_sbintrunc' signed_take_bit_int_eq_self)

lemma pcm_sample_Num:
  "sint (pcm_sample (Num r)) = trunc (max (- 1) (min 1 r) * 32767)"
  using trunc_clamped [of r]
  by (simp add: pcm_sample_def math_min_1_def math_max_neg1_def times_7FFF_def toInt16_def
      sint_int16)

lemma pcm_sample_special:
  "sint (pcm_sample NaN) = 0" "sint (pcm_sample PosInf) = 32767" "sint (pcm_sample NegInf) = - 32767"
  by (simp_all add: pcm_sample_def math_min_1_def math_max_neg1_def times_7FFF_def toInt16_def
      trunc_def)

lemma pcm_sample_range: "- 32767 \<le> sint (pcm_sample x) \<and> sint (pcm_sample x) \<le> 32767"
  using trunc_clamped pcm_sample_Num pcm_sample_special by (cases x) simp_all

lemma length_buffer_bytes: "length (buffer_bytes ws) = 2 * length ws"
  by (induction ws) (simp_all add: buffer_bytes_def)

lemma length_btoa: "length (btoa bs) = 4 * ((length bs + 2) div 3)"
  by (induction bs rule: btoa.induct) (simp_all add: Let_def, arith)

lemma encode_frame_length:
  "length (encode_frame inputData) = 4 * ((2 * length inputData + 2) div 3)"
  by (simp add: encode_frame_def length_btoa length_buffer_bytes pcmData_def)

lemma length_b64chars: "length b64chars = 64"
  by (simp add: b64chars_def)

lemma b64_in_alphabet: "n < 64 \<Longrightarrow> b64 n \<in> set b64chars"
  unfolding b64_def by (rule nth_mem) (simp add: length_b64chars)

lemma btoa_alphabet: "set (btoa bs) \<subseteq> insert (CHR ''='') (set b64chars)"
proof (induction bs rule: btoa.induct)
  case (1 a b c rest)
  have "unat a * 65536 + unat b * 256 + unat c < 16777216"
    using three_bytes(1) [OF unat_byte unat_byte unat_byte] .
  from sextet_bounds [OF this] 1 show ?case
    by (simp add: Let_def b64_in_alphabet)
next
  case (2 a b)
  have z: "(0::nat) < 256" by simp
  have "unat a * 65536 + unat b * 256 < 16777216"
    using three_bytes(1) [OF unat_byte [of a] unat_byte [of b] z] by simp
  from sextet_bounds [OF this] show ?case
    by (simp add: Let_def b64_in_alphabet)
next
  case (3 a)
  have z: "(0::nat) < 256" by simp
  have "unat a * 65536 < 16777216"
    using three_bytes(1) [OF unat_byte [of a] z z] by simp
  from sextet_bounds [OF this] show ?case
    by (simp add: Let_def b64_in_alphabet)
next
  case 4
  show ?case by simp
qed

text \<open>
  Claim C3, as stated, fails for the ticks of a processor that is wired (lines 270--272)
  while \<^verbatim>\<open>connectLive\<close> is still pending: its handler is assigned only at line 318,
  so such a tick encodes and sends nothing.
\<close>

theorem tick_before_handler_counterexample:
  "processors (run connect_pending initial) = 1 \<and>
   handlers (run connect_pending initial) = {} \<and>
   closedContexts (run connect_pending initial) = {} \<and>
   calls (run connect_pending initial) = [NewAudioContext 0, GetUserMedia, ConnectLive] \<and>
   length (replicate 4096 (Num (1 / 2))) = bufferSize \<and>
   fire env_ok (Tick 0 1 (replicate 4096 (Num (1 / 2)))) (run connect_pending initial) =
     run connect_pending initial"
  by (simp add: connect_pending_def handler_defs bufferSize_def)

lemma tick_fires:
  "fire env (Tick c x inputData) s =
     (if c \<notin> closedContexts s \<and> x \<in> handlers s
      then s\<lparr>calls := calls s @ [SendRealtimeInput (encode_frame inputData)]\<rparr> else s)"
  by (simp add: onaudioprocess_def)

lemma handler_installed:
  "handlers (start_head s) = handlers s"
  "micAvailable env \<Longrightarrow> handlers (start_mic_settled env s) = handlers s"
  "micAvailable env \<Longrightarrow> processors (start_mic_settled env s) = Suc (processors s)"
  "connectSucceeds env \<Longrightarrow> handlers (start_connect_settled env s) = insert (fresh s) (handlers s)"
  "connectSucceeds env \<Longrightarrow> liveSessionRef (start_connect_settled env s) = Some (fresh s)"
  by (simp_all add: start_head_def start_mic_settled_def start_connect_settled_def)

text \<open>
  Claim C3, amended. A tick hands a buffer of 4096 samples to the handler, once the
  handler is installed and while the audio context is open; before that, and after the
  context has closed, a tick changes nothing. The handler is installed by the segment of
  start that stores the opened session, not earlier. Every sample, whatever float it is,
  becomes a 16-bit value between -32767 and 32767, and a number becomes its clamp to
  [-1, 1] times 32767, truncated; the frame has 4096 samples and 8192 bytes; its encoding
  has 10924 characters, all of the base64 alphabet or the padding, and decodes back to
  the frame, byte for byte; and the tick sends that one string and nothing else. The
  encoder has no failing branch.
\<close>

theorem encoder_frame_per_tick:
  assumes "length inputData = bufferSize"
  shows "length (pcmData inputData) = 4096 \<and>
         (\<forall>i<4096.
            - 32767 \<le> sint (pcmData inputData ! i) \<and> sint (pcmData inputData ! i) \<le> 32767 \<and>
            (\<forall>r. inputData ! i = Num r \<longrightarrow>
               sint (pcmData inputData ! i) = trunc (max (- 1) (min 1 r) * 32767))) \<and>
         length (buffer_bytes (pcmData inputData)) = 8192 \<and>
         length (encode_frame inputData) = 10924 \<and>
         set (encode_frame inputData) \<subseteq> insert (CHR ''='') (set b64chars) \<and>
         samples_of_bytes (unbase64 (encode_frame inputData)) = pcmData inputData \<and>
         onaudioprocess inputData s =
           s\<lparr>calls := calls s @ [SendRealtimeInput (encode_frame inputData)]\<rparr> \<and>
         (c \<notin> closedContexts s \<and> x \<in> handlers s \<longrightarrow>
            fire env (Tick c x inputData) s =
              s\<lparr>calls := calls s @ [SendRealtimeInput (encode_frame inputData)]\<rparr>) \<and>
         (c \<in> closedContexts s \<or> x \<notin> handlers s \<longrightarrow> fire env (Tick c x inputData) s = s) \<and>
         handlers (start_head s) = handlers s \<and>
         (micAvailable env \<longrightarrow>
            handlers (start_mic_settled env s) = handlers s \<and>
            processors (start_mic_settled env s) = Suc (processors s)) \<and>
         (connectSucceeds env \<longrightarrow>
            handlers (start_connect_settled env s) = insert (fresh s) (handlers s) \<and>
            liveSessionRef (start_connect_settled env s) = Some (fresh s))"
proof -
  have n: "length inputData = 4096"
    using assms by (simp add: bufferSize_def)
  have a: "length (pcmData inputData) = 4096"
    using n by (simp add: pcmData_def)
  have b: "\<forall>i<4096.
            - 32767 \<le> sint (pcmData inputData ! i) \<and> sint (pcmData inputData ! i) \<le> 32767 \<and>
            (\<forall>r. inputData ! i = Num r \<longrightarrow>
               sint (pcmData inputData ! i) = trunc (max (- 1) (min 1 r) * 32767))"
    using n pcm_sample_range pcm_sample_Num by (simp add: pcmData_def)
  have c: "length (buffer_bytes (pcmData inputData)) = 8192"
    using a by (simp add: length_buffer_bytes)
  have d: "length (encode_frame inputData) = 10924"
    using n by (simp add: encode_frame_length)
  have e: "onaudioprocess inputData s =
           s\<lparr>calls := calls s @ [SendRealtimeInput (encode_frame inputData)]\<rparr>"
    by (simp add: onaudioprocess_def)
  have f: "set (encode_frame inputData) \<subseteq> insert (CHR ''='') (set b64chars)"
    unfolding encode_frame_def by (rule btoa_alphabet)
  have g: "(c \<notin> closedContexts s \<and> x \<in> handlers s \<longrightarrow>
            fire env (Tick c x inputData) s =
              s\<lparr>calls := calls s @ [SendRealtimeInput (encode_frame inputData)]\<rparr>) \<and>
         (c \<in> closedContexts s \<or> x \<notin> handlers s \<longrightarrow> fire env (Tick c x inputData) s = s)"
    by (auto simp: onaudioprocess_def)
  have h: "handlers (start_head s) = handlers s \<and>
         (micAvailable env \<longrightarrow>
            handlers (start_mic_settled env s) = handlers s \<and>
            processors (start_mic_settled env s) = Suc (processors s)) \<and>
         (connectSucceeds env \<longrightarrow>
            handlers (start_connect_settled env s) = insert (fresh s) (handlers s) \<and>
            liveSessionRef (start_connect_settled env s) = Some (fresh s))"
    by (simp add: handler_installed)
  from a b c d e f g h frame_recovered show ?thesis by blast
qed

theorem encoder_frame_per_tick_witness:
  "length (encode_frame (replicate 4096 (Num (3 / 2)))) = 10924 \<and>
   sint (pcmData (replicate 4096 (Num (3 / 2))) ! 7) = 32767 \<and>
   handlers (run session_opened initial) = {1} \<and>
   closedContexts (run session_opened initial) = {} \<and>
   calls (fire env_ok (Tick 0 1 (replicate 4096 (Num (3 / 2)))) (run session_opened initial)) =
     calls (run session_opened initial) @
       [SendRealtimeInput (encode_frame (replicate 4096 (Num (3 / 2))))]"
proof -
  let ?x = "replicate 4096 (Num (3 / 2))"
  let ?s = "run session_opened initial"
  have l: "length ?x = bufferSize"
    by (simp add: bufferSize_def)
  have hs: "handlers ?s = {1}" and cs: "closedContexts ?s = {}"
    by (simp_all add: input_defs handler_defs)
  note th = encoder_frame_per_tick [OF l, of ?s 0 1 env_ok]
  have len: "length (encode_frame ?x) = 10924"
    using th by blast
  have q: "\<forall>i<4096.
            - 32767 \<le> sint (pcmData ?x ! i) \<and> sint (pcmData ?x ! i) \<le> 32767 \<and>
            (\<forall>r. ?x ! i = Num r \<longrightarrow>
               sint (pcmData ?x ! i) = trunc (max (- 1) (min 1 r) * 32767))"
    using th by blast
  have "0 \<notin> closedContexts ?s \<and> 1 \<in> handlers ?s"
    using hs cs by simp
  with th have on: "fire env_ok (Tick 0 1 ?x) ?s =
      ?s\<lparr>calls := calls ?s @ [SendRealtimeInput (encode_frame ?x)]\<rparr>"
    by blast
  have i: "?x ! 7 = Num (3 / 2)"
    by simp
  have "sint (pcmData ?x ! 7) = trunc (max (- 1) (min 1 (3 / 2)) * 32767)"
    using q i by (meson numeral_less_iff semiring_norm)
  moreover have "trunc (max (- 1) (min 1 (3 / 2)) * 32767) = 32767"
    by (simp add: trunc_def)
  moreover have "calls (fire env_ok (Tick 0 1 ?x) ?s) =
      calls ?s @ [SendRealtimeInput (encode_frame ?x)]"
    unfolding on by simp
  ultimately show ?thesis using len hs cs by simp
qed

end
